theory Spec2Isabelle
  imports Main "HOL-Library.AList"
begin

section \<open>Python strings\<close>

text \<open>
  A Python \<open>str\<close> is a sequence of Unicode code points, so a string is modelled as the
  list of its code points. The text of the repository is Chinese; its literals are written
  out as code points, and the text beside each of them says in English what it reads.
  An ASCII literal is written with \<open>ascii\<close>.
\<close>

type_synonym ustr = "nat list"

definition ascii :: "string \<Rightarrow> ustr" where
  "ascii s = map of_char s"

text \<open>
  \<open>str.strip()\<close> without argument removes leading and trailing white space, which for a
  \<open>str\<close> is every code point for which \<open>str.isspace\<close> holds.
\<close>

definition isspace :: "nat \<Rightarrow> bool" where
  "isspace c \<longleftrightarrow>
     (0x09 \<le> c \<and> c \<le> 0x0D) \<or> (0x1C \<le> c \<and> c \<le> 0x20) \<or> c = 0x85 \<or> c = 0xA0 \<or>
     c = 0x1680 \<or> (0x2000 \<le> c \<and> c \<le> 0x200A) \<or> c = 0x2028 \<or> c = 0x2029 \<or>
     c = 0x202F \<or> c = 0x205F \<or> c = 0x3000"

definition strip :: "ustr \<Rightarrow> ustr" where
  "strip s = rev (dropWhile isspace (rev (dropWhile isspace s)))"

text \<open>\<open>s.startswith(p)\<close>.\<close>

definition startswith :: "ustr \<Rightarrow> ustr \<Rightarrow> bool" where
  "startswith s p \<longleftrightarrow> take (length p) s = p"

text \<open>\<open>s.split(c)\<close> for a separator of one code point: every piece, empty ones included.\<close>

fun split_all :: "nat \<Rightarrow> ustr \<Rightarrow> ustr list" where
  "split_all c [] = [[]]"
| "split_all c (x # xs) =
     (if x = c then [] # split_all c xs
      else (case split_all c xs of
              [] \<Rightarrow> [[x]]
            | p # ps \<Rightarrow> (x # p) # ps))"

text \<open>
  \<open>s.split(c, 1)\<close> on a string that contains \<open>c\<close>: the part before the first \<open>c\<close> and
  the part after it.
\<close>

definition split1 :: "nat \<Rightarrow> ustr \<Rightarrow> ustr \<times> ustr" where
  "split1 c s = (takeWhile (\<lambda>x. x \<noteq> c) s, drop 1 (dropWhile (\<lambda>x. x \<noteq> c) s))"

text \<open>\<open>sep.join(parts)\<close> on a list of strings.\<close>

fun join :: "ustr \<Rightarrow> ustr list \<Rightarrow> ustr" where
  "join sep [] = []"
| "join sep [p] = p"
| "join sep (p # q # ps) = p @ sep @ join sep (q # ps)"

text \<open>\<open>s.replace("\r\n", " ")\<close>.\<close>

fun replace_crlf :: "ustr \<Rightarrow> ustr" where
  "replace_crlf (x # y # xs) =
     (if x = 13 \<and> y = 10 then 32 # replace_crlf xs else x # replace_crlf (y # xs))"
| "replace_crlf xs = xs"

section \<open>Values, errors and output\<close>

text \<open>
  The value that \<open>res.json()\<close> returns: \<open>None\<close>, a \<open>bool\<close>, an \<open>int\<close>, a \<open>float\<close>, a \<open>str\<close>,
  a \<open>list\<close> or a \<open>dict\<close> with string keys. A \<open>dict\<close> is the list of its items in insertion
  order, looked up with \<open>map_of\<close>. A \<open>float\<close> is kept as a mantissa and a binary exponent;
  of its value the model itself only asks whether it is zero.
\<close>

datatype json =
    JNull
  | JBool bool
  | JInt int
  | JFloat int int
  | JStr ustr
  | JList "json list"
  | JObj "(ustr \<times> json) list"

text \<open>
  The exceptions that the code raises or meets. In Python they are all subclasses of
  \<open>Exception\<close>.
\<close>

datatype error =
    FileNotFoundError
  | ConnectionError
  | HTTPError nat
  | JSONDecodeError
  | ValueError ustr
  | AttributeError
  | TypeError
  | KeyError
  | OverflowError
  | RecursionError
  | UnicodeEncodeError

text \<open>
  What a run does besides computing values: the lines it prints, the pause it takes and the
  calls of \<open>fetch_job_detail\<close>. A printed line is recorded by its kind and by the
  values formatted into it, not by its text.
\<close>

datatype event =
    UnknownArea ustr         \<comment> \<open>the warning of \<open>read_config\<close> for a name outside \<open>AREA_CODES\<close>\<close>
  | DetailCall json          \<comment> \<open>\<open>fetch_job_detail(job_id)\<close> is called\<close>
  | Fetched json json        \<comment> \<open>the success line, with the job title and the company name\<close>
  | Sleep nat                \<comment> \<open>\<open>time.sleep(n)\<close>\<close>
  | Skipped json error       \<comment> \<open>the skip line, with \<open>job_id\<close> and the exception\<close>

text \<open>
  \<open>print\<close> writes to a console, and raises where the console cannot take the line: for a
  line it is asked to write, a console gives the exception that \<open>print\<close> raises, or \<open>None\<close>
  when the line is written.
\<close>

type_synonym console = "event \<Rightarrow> error option"

text \<open>One step after another: an exception of the first step is the exception of both.\<close>

definition bindE :: "error + 'a \<Rightarrow> ('a \<Rightarrow> error + 'b) \<Rightarrow> error + 'b" where
  "bindE m f = (case m of Inl e \<Rightarrow> Inl e | Inr x \<Rightarrow> f x)"

text \<open>\<open>print\<close> of a line, after the lines \<open>out\<close> written before it.\<close>

definition print_line :: "console \<Rightarrow> event \<Rightarrow> event list \<Rightarrow> error + event list" where
  "print_line con line out = (case con line of Some e \<Rightarrow> Inl e | None \<Rightarrow> Inr (out @ [line]))"

section \<open>The configuration reader\<close>

text \<open>
  \<open>AREA_CODES\<close>, in the order of the source. The names are, line by line:
  Taipei City, New Taipei City, Taoyuan City, Taichung City, Kaohsiung City, Tainan City,
  Hsinchu County, Hsinchu City, Miaoli County, Changhua County, Yunlin County, Chiayi City,
  Chiayi County, Pingtung County, Yilan County, Hualien County, Taitung County,
  Keelung City, Nantou County, Penghu County, Kinmen County, Lienchiang County.
\<close>

definition AREA_CODES :: "(ustr \<times> ustr) list" where
  "AREA_CODES =
    [([0x53F0, 0x5317, 0x5E02], ascii ''6001001000''),
     ([0x65B0, 0x5317, 0x5E02], ascii ''6001002000''),
     ([0x6843, 0x5712, 0x5E02], ascii ''6001003000''),
     ([0x53F0, 0x4E2D, 0x5E02], ascii ''6001004000''),
     ([0x9AD8, 0x96C4, 0x5E02], ascii ''6001005000''),
     ([0x53F0, 0x5357, 0x5E02], ascii ''6001006000''),
     ([0x65B0, 0x7AF9, 0x7E23], ascii ''6001007000''),
     ([0x65B0, 0x7AF9, 0x5E02], ascii ''6001008000''),
     ([0x82D7, 0x6817, 0x7E23], ascii ''6001009000''),
     ([0x5F70, 0x5316, 0x7E23], ascii ''6001011000''),
     ([0x96F2, 0x6797, 0x7E23], ascii ''6001012000''),
     ([0x5609, 0x7FA9, 0x5E02], ascii ''6001010000''),
     ([0x5609, 0x7FA9, 0x7E23], ascii ''6001011000''),
     ([0x5C4F, 0x6771, 0x7E23], ascii ''6001013000''),
     ([0x5B9C, 0x862D, 0x7E23], ascii ''6001015000''),
     ([0x82B1, 0x84EE, 0x7E23], ascii ''6001014000''),
     ([0x53F0, 0x6771, 0x7E23], ascii ''6001016000''),
     ([0x57FA, 0x9686, 0x5E02], ascii ''6001017000''),
     ([0x5357, 0x6295, 0x7E23], ascii ''6001018000''),
     ([0x6F8E, 0x6E56, 0x7E23], ascii ''6001019000''),
     ([0x91D1, 0x9580, 0x7E23], ascii ''6001020000''),
     ([0x9023, 0x6C5F, 0x7E23], ascii ''6001021000'')]"

text \<open>
  The state of \<open>read_config\<close>: the dictionary \<open>params\<close>, in insertion order, and the lines
  printed so far.
\<close>

record config_state =
  params :: "(ustr \<times> ustr) list"
  printed :: "event list"

text \<open>
  The inner loop over the names of an \<open>area\<close> value: a name of the table appends its code
  to \<open>codes\<close>, any other name prints the warning. An exception of that \<open>print\<close> ends the
  loop, and \<open>read_config\<close> with it.
\<close>

fun area_loop ::
  "console \<Rightarrow> ustr list \<Rightarrow> ustr list \<times> event list \<Rightarrow> error + ustr list \<times> event list" where
  "area_loop con [] acc = Inr acc"
| "area_loop con (a # rest) (codes, out) =
     (case map_of AREA_CODES a of
        Some code \<Rightarrow> area_loop con rest (codes @ [code], out)
      | None \<Rightarrow> bindE (print_line con (UnknownArea a) out) (\<lambda>out'. area_loop con rest (codes, out')))"

text \<open>
  The body of the loop over the lines of the file. The test \<open>key == "area"\<close> reads the key
  as \<open>split\<close> returned it; the key is stripped only where it is stored.
\<close>

definition process_line :: "console \<Rightarrow> config_state \<Rightarrow> ustr \<Rightarrow> error + config_state" where
  "process_line con st raw =
     (let line = strip raw in
      if line = [] \<or> startswith line (ascii ''#'') then Inr st
      else if of_char CHR ''='' \<notin> set line then Inr st
      else
        (let (key, value0) = split1 (of_char CHR ''='') line;
             value = strip value0
         in if key = ascii ''area'' then
              (let areas = map strip (split_all (of_char CHR '','') value)
               in bindE (area_loop con areas ([], printed st)) (\<lambda>(codes, out).
                    Inr (st\<lparr>params := AList.update (strip key) (join (ascii '','') codes) (params st),
                            printed := out\<rparr>)))
            else Inr (st\<lparr>params := AList.update (strip key) value (params st)\<rparr>)))"

text \<open>The loop \<open>for line in f\<close>.\<close>

fun read_lines :: "console \<Rightarrow> ustr list \<Rightarrow> config_state \<Rightarrow> error + config_state" where
  "read_lines con [] st = Inr st"
| "read_lines con (raw # rest) st = bindE (process_line con st raw) (read_lines con rest)"

text \<open>
  \<open>read_config\<close>: the file system gives the lines of a file as iterating over it yields
  them, or nothing for a path that does not exist, where \<open>open\<close> raises.
\<close>

definition read_config ::
  "console \<Rightarrow> (ustr \<rightharpoonup> ustr list) \<Rightarrow> ustr \<Rightarrow> error + config_state" where
  "read_config con fs filename =
     (case fs filename of
        None \<Rightarrow> Inl FileNotFoundError
      | Some lines \<Rightarrow> read_lines con lines \<lparr>params = [], printed = []\<rparr>)"

section \<open>Python operations on values\<close>

text \<open>
  Two operations of the interpreter are parameters of the model: the text of a value that
  is not a string (\<open>str(v)\<close>, and \<open>{v}\<close> in an f-string), and the sum of two numbers of
  which one is a \<open>float\<close>, which is \<open>None\<close> where Python raises \<open>OverflowError\<close>.
\<close>

record builtins =
  py_str :: "json \<Rightarrow> ustr"
  float_add :: "json \<Rightarrow> json \<Rightarrow> json option"

text \<open>The truth value of a value, as \<open>if v\<close>, \<open>not v\<close> and \<open>v or w\<close> read it.\<close>

fun truthy :: "json \<Rightarrow> bool" where
  "truthy JNull = False"
| "truthy (JBool b) = b"
| "truthy (JInt i) = (i \<noteq> 0)"
| "truthy (JFloat m e) = (m \<noteq> 0)"
| "truthy (JStr s) = (s \<noteq> [])"
| "truthy (JList xs) = (xs \<noteq> [])"
| "truthy (JObj kvs) = (kvs \<noteq> [])"

text \<open>\<open>a or b\<close>: \<open>b\<close> is evaluated only where \<open>a\<close> is false.\<close>

definition or_else :: "error + json \<Rightarrow> error + json \<Rightarrow> error + json" where
  "or_else a b = bindE a (\<lambda>v. if truthy v then Inr v else b)"

text \<open>
  \<open>v.get(k, d)\<close>: only a \<open>dict\<close> has the method; \<open>v.get(k)\<close> is \<open>dict_get v k JNull\<close>.
  A key whose value is \<open>None\<close> is present and gives \<open>None\<close>, not the default.
\<close>

fun dict_get :: "json \<Rightarrow> ustr \<Rightarrow> json \<Rightarrow> error + json" where
  "dict_get (JObj kvs) k d = Inr (case map_of kvs k of None \<Rightarrow> d | Some v \<Rightarrow> v)"
| "dict_get _ k d = Inl AttributeError"

text \<open>\<open>v[k]\<close> with a string \<open>k\<close>.\<close>

fun subscript :: "json \<Rightarrow> ustr \<Rightarrow> error + json" where
  "subscript (JObj kvs) k = (case map_of kvs k of None \<Rightarrow> Inl KeyError | Some v \<Rightarrow> Inr v)"
| "subscript _ k = Inl TypeError"

text \<open>The values that \<open>for x in v\<close> runs through.\<close>

fun py_iter :: "json \<Rightarrow> error + json list" where
  "py_iter (JList xs) = Inr xs"
| "py_iter (JObj kvs) = Inr (map (\<lambda>kv. JStr (fst kv)) kvs)"
| "py_iter (JStr s) = Inr (map (\<lambda>c. JStr [c]) s)"
| "py_iter _ = Inl TypeError"

fun is_str :: "json \<Rightarrow> bool" where
  "is_str (JStr s) = True"
| "is_str _ = False"

fun the_str :: "json \<Rightarrow> ustr" where
  "the_str (JStr s) = s"
| "the_str _ = []"

text \<open>\<open>str(v)\<close>, and \<open>{v}\<close> in an f-string.\<close>

fun str_of :: "builtins \<Rightarrow> json \<Rightarrow> ustr" where
  "str_of B (JStr s) = s"
| "str_of B v = py_str B v"

text \<open>\<open>sep.join(xs)\<close>: \<open>TypeError\<close> unless every item is a string.\<close>

definition str_join :: "ustr \<Rightarrow> json list \<Rightarrow> error + json" where
  "str_join sep xs =
     (if list_all is_str xs then Inr (JStr (join sep (map the_str xs))) else Inl TypeError)"

text \<open>
  \<open>x + y\<close>: concatenation of two strings or of two lists, the sum of two numbers (a
  \<open>bool\<close> counts as 0 or 1), \<open>TypeError\<close> otherwise.
\<close>

fun int_of :: "json \<Rightarrow> int option" where
  "int_of (JInt i) = Some i"
| "int_of (JBool b) = Some (if b then 1 else 0)"
| "int_of _ = None"

fun is_float :: "json \<Rightarrow> bool" where
  "is_float (JFloat m e) = True"
| "is_float _ = False"

definition is_number :: "json \<Rightarrow> bool" where
  "is_number v \<longleftrightarrow> int_of v \<noteq> None \<or> is_float v"

fun py_add :: "builtins \<Rightarrow> json \<Rightarrow> json \<Rightarrow> error + json" where
  "py_add B (JStr a) (JStr b) = Inr (JStr (a @ b))"
| "py_add B (JList a) (JList b) = Inr (JList (a @ b))"
| "py_add B x y =
     (if is_number x \<and> is_number y then
        (case (int_of x, int_of y) of
           (Some a, Some b) \<Rightarrow> Inr (JInt (a + b))
         | _ \<Rightarrow> (case float_add B x y of None \<Rightarrow> Inl OverflowError | Some v \<Rightarrow> Inr v))
      else Inl TypeError)"

section \<open>The detail fetcher and the normalisation\<close>

text \<open>
  The placeholders: \<open>unknown_company\<close> reads "(unknown company)", \<open>unnamed_job\<close> reads
  "(unnamed job)", \<open>unspecified\<close> reads "unspecified"; \<open>withdrawn_msg\<close>, the message of the
  \<open>ValueError\<close>, reads "this job's data is incomplete or has been taken down".
\<close>

definition unknown_company :: ustr where
  "unknown_company = [0xFF08, 0x672A, 0x77E5, 0x516C, 0x53F8, 0xFF09]"

definition unnamed_job :: ustr where
  "unnamed_job = [0xFF08, 0x672A, 0x547D, 0x540D, 0x8077, 0x7F3A, 0xFF09]"

definition unspecified :: ustr where
  "unspecified = [0x672A, 0x6307, 0x5B9A]"

definition withdrawn_msg :: ustr where
  "withdrawn_msg =
     [0x6B64, 0x8077, 0x7F3A, 0x8CC7, 0x6599, 0x4E0D, 0x5B8C, 0x6574, 0x6216, 0x5DF2, 0x4E0B, 0x67B6]"

text \<open>
  The keys of \<open>job_data\<close>, in the order of the dictionary: company name, job title,
  location, work experience, education, language ability, tools, skills, salary, benefits,
  head count, job description, other conditions, date of update, link.
\<close>

definition k_company :: ustr where "k_company = [0x516C, 0x53F8, 0x540D, 0x7A31]"
definition k_job :: ustr where "k_job = [0x8077, 0x7F3A, 0x540D, 0x7A31]"
definition k_location :: ustr where "k_location = [0x5730, 0x9EDE]"
definition k_workexp :: ustr where "k_workexp = [0x5DE5, 0x4F5C, 0x7D93, 0x6B77]"
definition k_edu :: ustr where "k_edu = [0x5B78, 0x6B77]"
definition k_language :: ustr where "k_language = [0x8A9E, 0x8A00, 0x80FD, 0x529B]"
definition k_specialty :: ustr where "k_specialty = [0x64C5, 0x9577, 0x5DE5, 0x5177]"
definition k_skills :: ustr where "k_skills = [0x5DE5, 0x4F5C, 0x6280, 0x80FD]"
definition k_salary :: ustr where "k_salary = [0x85AA, 0x8CC7]"
definition k_welfare :: ustr where "k_welfare = [0x798F, 0x5229]"
definition k_needemp :: ustr where "k_needemp = [0x8077, 0x7F3A, 0x9700, 0x6C42, 0x4EBA, 0x6578]"
definition k_description :: ustr where "k_description = [0x5DE5, 0x4F5C, 0x5167, 0x5BB9]"
definition k_other :: ustr where "k_other = [0x5176, 0x4ED6, 0x689D, 0x4EF6]"
definition k_date :: ustr where "k_date = [0x8077, 0x7F3A, 0x66F4, 0x65B0, 0x65E5, 0x671F]"
definition k_link :: ustr where "k_link = [0x8077, 0x7F3A, 0x9023, 0x7D50]"

definition job_data_keys :: "ustr list" where
  "job_data_keys =
     [k_company, k_job, k_location, k_workexp, k_edu, k_language, k_specialty, k_skills,
      k_salary, k_welfare, k_needemp, k_description, k_other, k_date, k_link]"

type_synonym job_data = "(ustr \<times> json) list"

text \<open>\<open>company_name\<close> and \<open>job_name\<close>: chains of \<open>or\<close>, ending in the placeholder.\<close>

definition company_name :: "json \<Rightarrow> json \<Rightarrow> json \<Rightarrow> error + json" where
  "company_name info cust header =
     or_else (dict_get info (ascii ''custName'') JNull)
       (or_else (dict_get cust (ascii ''custName'') JNull)
          (or_else (dict_get header (ascii ''custName'') JNull)
             (Inr (JStr unknown_company))))"

definition job_name :: "json \<Rightarrow> json \<Rightarrow> json \<Rightarrow> error + json" where
  "job_name info detail header =
     or_else (dict_get detail (ascii ''jobName'') JNull)
       (or_else (dict_get header (ascii ''jobName'') JNull)
          (or_else (dict_get info (ascii ''jobName'') JNull)
             (Inr (JStr unnamed_job))))"

text \<open>
  The loop over \<open>condition.get("language", [])\<close>, with \<open>lang_list\<close> as accumulator: an
  entry whose \<open>language\<close> is false is passed over.
\<close>

fun lang_loop :: "builtins \<Rightarrow> json list \<Rightarrow> json list \<Rightarrow> error + json list" where
  "lang_loop B [] lang_list = Inr lang_list"
| "lang_loop B (lang # rest) lang_list =
     bindE (dict_get lang (ascii ''language'') (JStr [])) (\<lambda>lang_item.
     bindE (dict_get lang (ascii ''ability'') (JStr [])) (\<lambda>ability.
       if truthy lang_item then
         lang_loop B rest
           (lang_list @
              [if truthy ability
               then JStr (str_of B lang_item @ ascii '':'' @ str_of B ability)
               else lang_item])
       else lang_loop B rest lang_list))"

definition language :: "builtins \<Rightarrow> json \<Rightarrow> error + json" where
  "language B condition =
     bindE (dict_get condition (ascii ''language'') (JList [])) (\<lambda>entries.
     bindE (py_iter entries) (\<lambda>langs.
     bindE (lang_loop B langs []) (\<lambda>lang_list.
       if lang_list \<noteq> [] then str_join (ascii '', '') lang_list
       else Inr (JStr unspecified))))"

text \<open>
  The list comprehension
  \<open>[sp.get("desc", "") for sp in xs if sp.get("desc")]\<close>.
\<close>

fun desc_list :: "json list \<Rightarrow> error + json list" where
  "desc_list [] = Inr []"
| "desc_list (sp # rest) =
     bindE (dict_get sp (ascii ''desc'') JNull) (\<lambda>d.
       if truthy d then
         bindE (dict_get sp (ascii ''desc'') (JStr [])) (\<lambda>d'.
         bindE (desc_list rest) (\<lambda>ds. Inr (d' # ds)))
       else desc_list rest)"

text \<open>
  The blocks that compute \<open>specialty\<close> and \<open>skills\<close> are the same code up to the key
  (\<open>specialty\<close>, \<open>skill\<close>), so one function models both.
\<close>

definition dispatch :: "ustr \<Rightarrow> json \<Rightarrow> json \<Rightarrow> error + json" where
  "dispatch key condition detail =
     bindE (dict_get condition key JNull) (\<lambda>c.
     bindE (case c of
              JList xs \<Rightarrow> bindE (desc_list xs) (str_join (ascii '', ''))
            | JStr s \<Rightarrow> Inr c
            | _ \<Rightarrow> bindE (dict_get detail key JNull) (\<lambda>d.
                     Inr (if truthy d then d else JStr []))) (\<lambda>v.
       Inr (if truthy v then v else JStr unspecified)))"

definition specialty :: "json \<Rightarrow> json \<Rightarrow> error + json" where
  "specialty = dispatch (ascii ''specialty'')"

definition skills :: "json \<Rightarrow> json \<Rightarrow> error + json" where
  "skills = dispatch (ascii ''skill'')"

definition other_condition :: "builtins \<Rightarrow> json \<Rightarrow> json \<Rightarrow> json \<Rightarrow> error + json" where
  "other_condition B info condition detail =
     bindE
       (or_else (dict_get condition (ascii ''other'') JNull)
          (or_else (dict_get detail (ascii ''otherCondition'') JNull)
             (or_else
                (bindE (dict_get info (ascii ''requirement'') (JObj [])) (\<lambda>req.
                   dict_get req (ascii ''other'') JNull))
                (Inr (JStr [])))))
       (\<lambda>v. Inr (JStr (strip (replace_crlf (str_of B v)))))"

text \<open>The entries of \<open>job_data\<close> that are more than a lookup.\<close>

definition location :: "builtins \<Rightarrow> json \<Rightarrow> error + json" where
  "location B detail =
     bindE (or_else (dict_get detail (ascii ''addressRegion'') (JStr [])) (Inr (JStr []))) (\<lambda>region.
     bindE (or_else (dict_get detail (ascii ''addressDetail'') (JStr [])) (Inr (JStr []))) (\<lambda>addr.
       py_add B region addr))"

definition description :: "json \<Rightarrow> error + json" where
  "description detail =
     bindE (or_else (dict_get detail (ascii ''jobDescription'') (JStr [])) (Inr (JStr []))) (\<lambda>d.
       case d of
         JStr s \<Rightarrow> Inr (JStr (strip (replace_crlf s)))
       | _ \<Rightarrow> Inl AttributeError)"

text \<open>
  The dictionary \<open>job_data\<close>, from the variables computed before it. Its values are
  evaluated in the order of the keys.
\<close>

definition job_data_of ::
  "builtins \<Rightarrow> ustr \<Rightarrow> json \<Rightarrow> json \<Rightarrow> json \<Rightarrow> json \<Rightarrow>
   json \<Rightarrow> json \<Rightarrow> json \<Rightarrow> json \<Rightarrow> json \<Rightarrow> json \<Rightarrow> error + job_data" where
  "job_data_of B job_id header detail condition welfare
     v_company v_job v_language v_specialty v_skills v_other =
     bindE (location B detail) (\<lambda>v_location.
     bindE (dict_get condition (ascii ''workExp'') (JStr [])) (\<lambda>v_workexp.
     bindE (dict_get condition (ascii ''edu'') (JStr [])) (\<lambda>v_edu.
     bindE (dict_get detail (ascii ''salary'') (JStr [])) (\<lambda>v_salary.
     bindE (dict_get welfare (ascii ''welfare'') (JStr [])) (\<lambda>v_welfare.
     bindE (dict_get detail (ascii ''needEmp'') (JStr [])) (\<lambda>v_needemp.
     bindE (description detail) (\<lambda>v_description.
     bindE (dict_get header (ascii ''appearDate'') (JStr [])) (\<lambda>v_date.
       Inr [(k_company, v_company), (k_job, v_job), (k_location, v_location),
            (k_workexp, v_workexp), (k_edu, v_edu), (k_language, v_language),
            (k_specialty, v_specialty), (k_skills, v_skills), (k_salary, v_salary),
            (k_welfare, v_welfare), (k_needemp, v_needemp),
            (k_description, v_description), (k_other, v_other), (k_date, v_date),
            (k_link, JStr (ascii ''https://www.104.com.tw/job/'' @ job_id))]))))))))"

text \<open>
  The part of \<open>fetch_job_detail\<close> from \<open>info = data["data"]\<close> to the end: the sections,
  the variables, the dictionary. \<open>job_id\<close> is the identifier cut out of the reference.
\<close>

definition normalize_detail :: "builtins \<Rightarrow> ustr \<Rightarrow> json \<Rightarrow> error + job_data" where
  "normalize_detail B job_id info =
     bindE (dict_get info (ascii ''header'') (JObj [])) (\<lambda>header.
     bindE (dict_get info (ascii ''jobDetail'') (JObj [])) (\<lambda>detail.
     bindE (dict_get info (ascii ''condition'') (JObj [])) (\<lambda>condition.
     bindE (dict_get info (ascii ''custInfo'') (JObj [])) (\<lambda>cust.
     bindE (dict_get info (ascii ''welfare'') (JObj [])) (\<lambda>welfare.
     bindE (company_name info cust header) (\<lambda>v_company.
     bindE (job_name info detail header) (\<lambda>v_job.
     bindE (language B condition) (\<lambda>v_language.
     bindE (specialty condition detail) (\<lambda>v_specialty.
     bindE (skills condition detail) (\<lambda>v_skills.
     bindE (other_condition B info condition detail) (\<lambda>v_other.
       job_data_of B job_id header detail condition welfare
         v_company v_job v_language v_specialty v_skills v_other)))))))))))"

text \<open>
  The body of a response, as \<open>res.json()\<close> finds it: not well-formed JSON, where it raises
  \<open>JSONDecodeError\<close>; well-formed JSON that the parser refuses with an exception of its
  own (a \<open>ValueError\<close> for an integer of more than 4300 digits, \<open>RecursionError\<close> for
  nesting too deep); or well-formed JSON with the value it is parsed to.
\<close>

datatype body = NotJSON | Refused error | Parsed json

text \<open>
  The network: what \<open>requests.get\<close> on a URL gives, either the exception that the call
  raises (no connection, a timeout, a URL it does not take) or a response with its status
  and its body.
\<close>

datatype http_outcome = Raised error | Response nat body

text \<open>\<open>res.raise_for_status()\<close> raises for the statuses 400 to 599.\<close>

definition raise_for_status :: "nat \<Rightarrow> error + unit" where
  "raise_for_status status =
     (if 400 \<le> status \<and> status < 600 then Inl (HTTPError status) else Inr ())"

text \<open>\<open>job_id.split("?")[0].split("/")[-1]\<close>.\<close>

definition extract_id :: "ustr \<Rightarrow> ustr" where
  "extract_id s = last (split_all (of_char CHR ''/'') (hd (split_all (of_char CHR ''?'') s)))"

text \<open>
  The part of \<open>fetch_job_detail\<close> up to the test of \<open>data.get("data")\<close>: the request, the
  status, the body, and the \<open>ValueError\<close> for a listing without data. It returns \<open>info\<close>.
\<close>

definition fetch_document :: "(ustr \<Rightarrow> http_outcome) \<Rightarrow> ustr \<Rightarrow> error + json" where
  "fetch_document net job_id =
     (case net (ascii ''https://www.104.com.tw/job/ajax/content/'' @ job_id) of
        Raised e \<Rightarrow> Inl e
      | Response status body \<Rightarrow>
          bindE (raise_for_status status) (\<lambda>_.
            case body of
              NotJSON \<Rightarrow> Inl JSONDecodeError
            | Refused e \<Rightarrow> Inl e
            | Parsed data \<Rightarrow>
                bindE (dict_get data (ascii ''data'') JNull) (\<lambda>info.
                  if \<not> truthy info then Inl (ValueError withdrawn_msg) else Inr info)))"

text \<open>
  \<open>fetch_job_detail\<close>. Its argument is whatever \<open>job["link"]["job"]\<close> was; \<open>split\<close> is a
  method of strings only.
\<close>

definition fetch_job_detail ::
  "builtins \<Rightarrow> (ustr \<Rightarrow> http_outcome) \<Rightarrow> json \<Rightarrow> error + job_data" where
  "fetch_job_detail B net ref =
     (case ref of
        JStr s \<Rightarrow> bindE (fetch_document net (extract_id s)) (normalize_detail B (extract_id s))
      | _ \<Rightarrow> Inl AttributeError)"

section \<open>The run driver\<close>

text \<open>
  The state of the main loop: \<open>all_jobs\<close> and what the run has done so far.
\<close>

record run_state =
  all_jobs :: "job_data list"
  trace :: "event list"

text \<open>
  The success line of a record, made from \<open>job_data['...']\<close> for the job title and the
  company name.
\<close>

definition success_line :: "job_data \<Rightarrow> error + event" where
  "success_line jd =
     bindE (subscript (JObj jd) k_job) (\<lambda>t.
     bindE (subscript (JObj jd) k_company) (\<lambda>c. Inr (Fetched t c)))"

text \<open>
  The \<open>except\<close> clause prints the skip line. It stands outside the \<open>try\<close>, so an exception
  of its \<open>print\<close> is caught by nothing and ends the run.
\<close>

definition except_clause :: "console \<Rightarrow> json \<Rightarrow> error \<Rightarrow> run_state \<Rightarrow> error + run_state" where
  "except_clause con job_id e st =
     bindE (print_line con (Skipped job_id e) (trace st)) (\<lambda>out. Inr (st\<lparr>trace := out\<rparr>))"

text \<open>
  What the \<open>try\<close> statement does with the outcome of \<open>fetch_job_detail\<close>. An exception of
  the call goes to the \<open>except\<close> clause. On a result the body appends it, prints the
  success line and sleeps; an exception raised by the success line goes to the \<open>except\<close>
  clause as well, after the record has been appended and before the sleep. The clause
  catches \<open>Exception\<close>, which every exception of the model is; an interrupt from the
  keyboard is none and is no part of the model.
\<close>

definition try_body ::
  "console \<Rightarrow> json \<Rightarrow> error + job_data \<Rightarrow> run_state \<Rightarrow> error + run_state" where
  "try_body con job_id outcome st =
     (case outcome of
        Inl e \<Rightarrow> except_clause con job_id e st
      | Inr jd \<Rightarrow>
          (let st1 = st\<lparr>all_jobs := all_jobs st @ [jd]\<rparr> in
           case success_line jd of
             Inl e \<Rightarrow> except_clause con job_id e st1
           | Inr line \<Rightarrow>
               (case con line of
                  Some e \<Rightarrow> except_clause con job_id e st1
                | None \<Rightarrow> Inr (st1\<lparr>trace := trace st1 @ [line, Sleep 1]\<rparr>))))"

text \<open>\<open>job["link"]["job"]\<close>, the reference of a listing item.\<close>

definition job_ref :: "json \<Rightarrow> error + json" where
  "job_ref job = bindE (subscript job (ascii ''link'')) (\<lambda>link. subscript link (ascii ''job''))"

text \<open>
  The loop \<open>for job in job_list\<close>. The network may answer differently from one item to
  the next: \<open>net i\<close> is the network as the item at position \<open>i\<close> finds it. The reference
  is read outside the \<open>try\<close>, so an exception there ends the run, as does one that leaves
  the \<open>try\<close> statement.
\<close>

fun main_loop ::
  "builtins \<Rightarrow> console \<Rightarrow> (nat \<Rightarrow> ustr \<Rightarrow> http_outcome) \<Rightarrow> nat \<Rightarrow> json list \<Rightarrow>
   run_state \<Rightarrow> error + run_state"
where
  "main_loop B con net i [] st = Inr st"
| "main_loop B con net i (job # rest) st =
     bindE (job_ref job) (\<lambda>job_id.
     bindE (try_body con job_id (fetch_job_detail B (net i) job_id)
              (st\<lparr>trace := trace st @ [DetailCall job_id]\<rparr>))
       (main_loop B con net (Suc i) rest))"

section \<open>The specification's words\<close>

text \<open>
  The specification speaks of a field of a section that is present, absent or empty.
  \<open>field_of v k\<close> is the value of the key \<open>k\<close> in \<open>v\<close>, and \<open>None\<close> where \<open>v\<close> has no such
  key or is no mapping. A value is empty where Python takes it for false: \<open>None\<close>, an empty
  string, list or mapping, zero, \<open>False\<close>.
\<close>

fun field_of :: "json \<Rightarrow> ustr \<Rightarrow> json" where
  "field_of (JObj kvs) k = (case map_of kvs k of None \<Rightarrow> JNull | Some v \<Rightarrow> v)"
| "field_of _ k = JNull"

fun is_obj :: "json \<Rightarrow> bool" where
  "is_obj (JObj kvs) = True"
| "is_obj _ = False"

text \<open>
  A section as the code takes it from the business-data object: \<open>info.get(k, {})\<close>, the
  empty mapping standing for a section that is absent.
\<close>

fun section_of :: "json \<Rightarrow> ustr \<Rightarrow> json" where
  "section_of (JObj kvs) k = (case map_of kvs k of None \<Rightarrow> JObj [] | Some v \<Rightarrow> v)"
| "section_of _ k = JObj []"

text \<open>A prioritized fallback chain: the first source that is not empty, else the placeholder.\<close>

definition first_nonempty :: "json list \<Rightarrow> json \<Rightarrow> json" where
  "first_nonempty sources placeholder =
     (case List.find truthy sources of None \<Rightarrow> placeholder | Some v \<Rightarrow> v)"

text \<open>
  The company name in the specification's words: top-level name, else the name of the
  employer-info section, else the name of the header section, else the placeholder.
\<close>

definition spec_company_name :: "json \<Rightarrow> json" where
  "spec_company_name info =
     first_nonempty
       [field_of info (ascii ''custName''),
        field_of (field_of info (ascii ''custInfo'')) (ascii ''custName''),
        field_of (field_of info (ascii ''header'')) (ascii ''custName'')]
       (JStr unknown_company)"

text \<open>
  The sections that the chain of the company name reads are mappings: the employer-info
  section, which is read when the top-level name is absent or empty, and the header
  section, which is read when the name of the employer-info section is absent or empty too.
\<close>

definition company_sections_ok :: "json \<Rightarrow> bool" where
  "company_sections_ok info \<longleftrightarrow>
     truthy (field_of info (ascii ''custName'')) \<or>
     (is_obj (section_of info (ascii ''custInfo'')) \<and>
      (truthy (field_of (section_of info (ascii ''custInfo'')) (ascii ''custName'')) \<or>
       is_obj (section_of info (ascii ''header''))))"

text \<open>
  The entries of a list-valued field, and the text of one language entry: \<open>language:ability\<close>
  when an ability is given, else just \<open>language\<close>.
\<close>

fun entries_of :: "json \<Rightarrow> json list" where
  "entries_of (JList xs) = xs"
| "entries_of _ = []"

definition format_entry :: "builtins \<Rightarrow> json \<Rightarrow> ustr" where
  "format_entry B e =
     (if truthy (field_of e (ascii ''ability''))
      then str_of B (field_of e (ascii ''language'')) @ ascii '':'' @
           str_of B (field_of e (ascii ''ability''))
      else str_of B (field_of e (ascii ''language'')))"

text \<open>The item that the loop appends to \<open>lang_list\<close> for an entry that names a language.\<close>

definition lang_item_of :: "builtins \<Rightarrow> json \<Rightarrow> json" where
  "lang_item_of B e =
     (if truthy (field_of e (ascii ''ability''))
      then JStr (str_of B (field_of e (ascii ''language'')) @ ascii '':'' @ str_of B (field_of e (ascii ''ability'')))
      else field_of e (ascii ''language''))"

text \<open>The value of a field of the record that a call returned, if it returned one.\<close>

definition field_value :: "error + job_data \<Rightarrow> ustr \<Rightarrow> json option" where
  "field_value res k = (case res of Inl e \<Rightarrow> None | Inr r \<Rightarrow> map_of r k)"

text \<open>
  The language field as claim C3 words it: every entry is formatted, the texts are joined,
  and the placeholder stands for an empty list.
\<close>

definition spec_language :: "builtins \<Rightarrow> json list \<Rightarrow> ustr" where
  "spec_language B entries =
     (if entries = [] then unspecified else join (ascii '', '') (map (format_entry B) entries))"

text \<open>
  The language field with the entries that name no language left out; the placeholder
  stands where no entry is left.
\<close>

definition named_language :: "builtins \<Rightarrow> json list \<Rightarrow> ustr" where
  "named_language B entries =
     (let named = filter (\<lambda>e. truthy (field_of e (ascii ''language''))) entries
      in if named = [] then unspecified else join (ascii '', '') (map (format_entry B) named))"

text \<open>
  The three-way dispatch as claim C4 words it, from the field of the eligibility section
  and the field of the job-detail section: a list gives the join of the description of
  each entry, a string gives itself, anything else gives the job-detail field; an empty
  result gives the placeholder.
\<close>

definition spec_dispatch :: "json \<Rightarrow> json \<Rightarrow> json" where
  "spec_dispatch c d =
     (let v = (case c of
                 JList xs \<Rightarrow> JStr (join (ascii '', '') (map (\<lambda>e. the_str (field_of e (ascii ''desc''))) xs))
               | JStr s \<Rightarrow> c
               | _ \<Rightarrow> d)
      in if truthy v then v else JStr unspecified)"

text \<open>The same dispatch with the empty descriptions of a list left out of the join.\<close>

definition nonempty_dispatch :: "json \<Rightarrow> json \<Rightarrow> json" where
  "nonempty_dispatch c d =
     (let v = (case c of
                 JList xs \<Rightarrow>
                   JStr (join (ascii '', '')
                     (map the_str (filter truthy (map (\<lambda>e. field_of e (ascii ''desc'')) xs))))
               | JStr s \<Rightarrow> c
               | _ \<Rightarrow> d)
      in if truthy v then v else JStr unspecified)"

text \<open>
  A trace in which the pause follows the success line of an item and nothing else: every
  item is the call of the detail fetcher, followed either by the success line and a pause
  of one second, or by the skip line for the same reference and no pause.
\<close>

fun paced :: "event list \<Rightarrow> bool" where
  "paced [] = True"
| "paced (DetailCall r # Fetched t c # Sleep n # rest) = (n = 1 \<and> paced rest)"
| "paced (DetailCall r # Skipped r' e # rest) = (r' = r \<and> paced rest)"
| "paced _ = False"

fun is_sleep :: "event \<Rightarrow> bool" where
  "is_sleep (Sleep n) = True"
| "is_sleep _ = False"

fun is_fetched :: "event \<Rightarrow> bool" where
  "is_fetched (Fetched t c) = True"
| "is_fetched _ = False"

text \<open>
  The exception that the \<open>except\<close> clause catches for an item, if any: the exception of
  \<open>fetch_job_detail\<close>, or else the exception of the success line.
\<close>

definition caught :: "console \<Rightarrow> error + job_data \<Rightarrow> error option" where
  "caught con outcome =
     (case outcome of
        Inl e \<Rightarrow> Some e
      | Inr jd \<Rightarrow> (case success_line jd of Inl e \<Rightarrow> Some e | Inr line \<Rightarrow> con line))"

text \<open>
  The outcomes of the calls of \<open>fetch_job_detail\<close> in a run over the references \<open>refs\<close>,
  the first of them at position \<open>i\<close>, and the records among them.
\<close>

fun outcomes ::
  "builtins \<Rightarrow> (nat \<Rightarrow> ustr \<Rightarrow> http_outcome) \<Rightarrow> nat \<Rightarrow> json list \<Rightarrow> (error + job_data) list"
where
  "outcomes B net i [] = []"
| "outcomes B net i (ref # refs) = fetch_job_detail B (net i) ref # outcomes B net (Suc i) refs"

fun successes :: "(error + job_data) list \<Rightarrow> job_data list" where
  "successes [] = []"
| "successes (Inr r # outs) = r # successes outs"
| "successes (Inl e # outs) = successes outs"

section \<open>Concrete inputs\<close>

text \<open>
  An interpreter, two consoles, two networks and a listing item to run the model on
  concrete inputs. None of the concrete runs below takes the text of a value that is not a
  string or adds floats, so the choice of the interpreter does not show in them.

  A console that encodes in UTF-8 takes every line but one with a surrogate code point in a
  string that is written into it as it stands. A console that encodes in cp950 has no code
  for the signs that begin the warning, the success line and the skip line, so it takes
  none of them.

  \<open>answering r\<close> gives the outcome \<open>r\<close> for every URL. On \<open>withdrawn_at k info\<close> the
  response at position \<open>k\<close> has no data, the listing being withdrawn, and at every other
  position the data is \<open>info\<close>.
\<close>

definition plain_builtins :: builtins where
  "plain_builtins = \<lparr>py_str = (\<lambda>v. []), float_add = (\<lambda>x y. None)\<rparr>"

definition surrogate :: "nat \<Rightarrow> bool" where
  "surrogate c \<longleftrightarrow> 0xD800 \<le> c \<and> c \<le> 0xDFFF"

fun raw_strings :: "event \<Rightarrow> ustr list" where
  "raw_strings (UnknownArea a) = [a]"
| "raw_strings (Fetched t c) = [the_str t, the_str c]"
| "raw_strings (Skipped r e) = [the_str r, (case e of ValueError m \<Rightarrow> m | _ \<Rightarrow> [])]"
| "raw_strings _ = []"

definition utf8_console :: console where
  "utf8_console line =
     (if list_ex (list_ex surrogate) (raw_strings line) then Some UnicodeEncodeError else None)"

definition cp950_console :: console where
  "cp950_console line = Some UnicodeEncodeError"

text \<open>
  The message of the \<open>ValueError\<close> that the JSON parser raises for an integer of 4301
  digits.
\<close>

definition int_limit_msg :: ustr where
  "int_limit_msg = ascii
     ''Exceeds the limit (4300 digits) for integer string conversion: value has 4301 digits; use sys.set_int_max_str_digits() to increase the limit''"

definition answering :: "http_outcome \<Rightarrow> ustr \<Rightarrow> http_outcome" where
  "answering r url = r"

definition withdrawn_at :: "nat \<Rightarrow> json \<Rightarrow> nat \<Rightarrow> ustr \<Rightarrow> http_outcome" where
  "withdrawn_at k info i url =
     (if i = k then Response 200 (Parsed (JObj []))
      else Response 200 (Parsed (JObj [(ascii ''data'', info)])))"

definition listing_item :: "ustr \<Rightarrow> json" where
  "listing_item ref = JObj [(ascii ''link'', JObj [(ascii ''job'', JStr ref)])]"

text \<open>The business-data object whose five sections are present and empty.\<close>

definition empty_sections :: "(ustr \<times> json) list" where
  "empty_sections =
     [(ascii ''header'', JObj []), (ascii ''jobDetail'', JObj []), (ascii ''condition'', JObj []),
      (ascii ''custInfo'', JObj []), (ascii ''welfare'', JObj [])]"

section \<open>Properties of the error monad and of the lookups\<close>

lemma bindE_eq_Inr: "bindE m f = Inr y \<longleftrightarrow> (\<exists>x. m = Inr x \<and> f x = Inr y)"
  by (cases m) (simp_all add: bindE_def)

lemma bindE_eq_Inl: "bindE m f = Inl e \<longleftrightarrow> m = Inl e \<or> (\<exists>x. m = Inr x \<and> f x = Inl e)"
  by (cases m) (simp_all add: bindE_def)

lemma or_else_eq_Inr:
  "or_else a b = Inr y \<longleftrightarrow> (\<exists>v. a = Inr v \<and> (if truthy v then y = v else b = Inr y))"
  by (cases a) (auto simp: or_else_def bindE_def)

lemma or_else_eq_Inl:
  "or_else a b = Inl e \<longleftrightarrow> a = Inl e \<or> (\<exists>v. a = Inr v \<and> \<not> truthy v \<and> b = Inl e)"
  by (cases a) (auto simp: or_else_def bindE_def)

lemma dict_get_field: "dict_get v k JNull = Inr x \<Longrightarrow> x = field_of v k"
  by (cases v) auto

lemma dict_get_Inl: "dict_get v k d = Inl e \<Longrightarrow> e = AttributeError"
  by (cases v) auto

lemma section_field:
  "dict_get info k (JObj []) = Inr s \<Longrightarrow> dict_get s k' JNull = Inr x \<Longrightarrow>
   x = field_of (field_of info k) k'"
  by (cases info; cases s) (auto split: option.splits)

section \<open>Properties of the configuration reader\<close>

text \<open>\<open>split\<close> always returns a piece, so the first and the last piece exist.\<close>

lemma split_all_nonempty: "split_all c s \<noteq> []"
  by (induction s) (auto split: list.splits)

lemma set_strip_subset: "set (strip s) \<subseteq> set s"
proof -
  have "set (strip s) = set (dropWhile isspace (rev (dropWhile isspace s)))"
    by (simp add: strip_def)
  also have "\<dots> \<subseteq> set (rev (dropWhile isspace s))"
    by (meson set_dropWhileD subsetI)
  also have "\<dots> \<subseteq> set s"
    using set_dropWhileD by fastforce
  finally show ?thesis .
qed

text \<open>
  Where the console takes the warnings, the inner loop keeps the codes of the names it
  knows, in the order of the names, and prints one warning for each of the others.
\<close>

lemma area_loop_eq:
  assumes "\<forall>a\<in>set areas. map_of AREA_CODES a = None \<longrightarrow> con (UnknownArea a) = None"
  shows "area_loop con areas (codes, out) =
     Inr (codes @ List.map_filter (map_of AREA_CODES) areas,
          out @ map UnknownArea (filter (\<lambda>a. map_of AREA_CODES a = None) areas))"
  using assms
proof (induction areas arbitrary: codes out)
  case Nil
  show ?case by simp
next
  case (Cons a rest)
  show ?case
  proof (cases "map_of AREA_CODES a")
    case None
    with Cons.prems have "con (UnknownArea a) = None" by simp
    with None Cons.prems show ?thesis
      by (simp add: Cons.IH print_line_def bindE_def)
  next
    case (Some code)
    with Cons.prems show ?thesis by (simp add: Cons.IH)
  qed
qed

text \<open>A warning that the console does not take ends the inner loop with its exception.\<close>

lemma area_loop_unknown_first:
  "map_of AREA_CODES a = None \<Longrightarrow> con (UnknownArea a) = Some e \<Longrightarrow>
   area_loop con (a # rest) (codes, out) = Inl e"
  by (simp add: print_line_def bindE_def)

text \<open>
  A line whose key is \<open>area\<close> with nothing between it and the \<open>=\<close> is translated: the value
  stored is the codes of the known names, joined with commas.
\<close>

lemma process_line_area:
  assumes "split1 (of_char CHR ''='') (strip raw) = (ascii ''area'', v)"
    and "of_char CHR ''='' \<in> set (strip raw)"
    and "\<forall>a\<in>set (map strip (split_all (of_char CHR '','') (strip v))).
           map_of AREA_CODES a = None \<longrightarrow> con (UnknownArea a) = None"
  shows "\<exists>st'. process_line con st raw = Inr st' \<and>
           params st' =
           AList.update (ascii ''area'')
             (join (ascii '','')
                (List.map_filter (map_of AREA_CODES)
                   (map strip (split_all (of_char CHR '','') (strip v)))))
             (params st)"
proof -
  have ne: "strip raw \<noteq> []"
    using assms(2) by auto
  have nc: "\<not> startswith (strip raw) (ascii ''#'')"
    using assms(1) ne by (cases "strip raw") (auto simp: startswith_def ascii_def split1_def split: if_splits)
  have sk: "strip (ascii ''area'') = ascii ''area''"
    by (simp add: strip_def ascii_def isspace_def)
  note al = area_loop_eq[OF assms(3), of "[]" "printed st"]
  show ?thesis
    using ne nc assms(1,2) al
    by (simp add: process_line_def Let_def sk bindE_def)
qed

text \<open>
  Scenario A of the specification: the line \<open>area=\<close> followed by the names of Taipei City
  and New Taipei City, separated by a comma.
\<close>

lemma scenario_A:
  "process_line con \<lparr>params = [], printed = []\<rparr>
     (ascii ''area='' @ [0x53F0, 0x5317, 0x5E02] @ ascii '','' @ [0x65B0, 0x5317, 0x5E02])
   = Inr \<lparr>params = [(ascii ''area'', ascii ''6001001000,6001002000'')], printed = []\<rparr>"
  by (simp add: process_line_def Let_def strip_def isspace_def startswith_def split1_def
      ascii_def AREA_CODES_def bindE_def)

text \<open>
  Claim C5. The claim says that a line is translated whenever its trimmed key equals
  \<open>area\<close>. The code compares the key before trimming it, so in the line \<open>area = \<close> followed
  by the name of Taipei City the key is \<open>area\<close> with a space behind it: the name is stored
  under the key \<open>area\<close> as it stands, without its code, and nothing is printed, on any
  console.
\<close>

theorem C5_area_key_before_space_not_translated:
  "read_config con [ascii ''config.txt'' \<mapsto> [ascii ''area = '' @ [0x53F0, 0x5317, 0x5E02]]]
     (ascii ''config.txt'')
   = Inr \<lparr>params = [(ascii ''area'', [0x53F0, 0x5317, 0x5E02])], printed = []\<rparr>"
  by (simp add: read_config_def process_line_def Let_def strip_def isspace_def startswith_def
      split1_def ascii_def bindE_def)

text \<open>
  Claim C9, as the code has it. The claim names Yunlin County with Changhua County, and
  Chiayi City with Chiayi County, as the names that share a code. In \<open>AREA_CODES\<close> the two
  names with one code are Changhua County and Chiayi County, both 6001011000; Yunlin County
  has 6001012000 and Chiayi City has 6001010000 for themselves, the 22 names are distinct,
  and without Chiayi County no code occurs twice.
\<close>

theorem C9_changhua_and_chiayi_county_share_code:
  "map_of AREA_CODES [0x5F70, 0x5316, 0x7E23] = Some (ascii ''6001011000'') \<and>
   map_of AREA_CODES [0x5609, 0x7FA9, 0x7E23] = Some (ascii ''6001011000'') \<and>
   map_of AREA_CODES [0x96F2, 0x6797, 0x7E23] = Some (ascii ''6001012000'') \<and>
   map_of AREA_CODES [0x5609, 0x7FA9, 0x5E02] = Some (ascii ''6001010000'') \<and>
   length AREA_CODES = 22 \<and>
   distinct (map fst AREA_CODES) \<and>
   distinct (map snd (remove1 ([0x5609, 0x7FA9, 0x7E23], ascii ''6001011000'') AREA_CODES))"
  by (simp add: AREA_CODES_def ascii_def)

text \<open>
  Claim C9 as stated fails: Yunlin County and Changhua County have different codes, and so
  have Chiayi City and Chiayi County.
\<close>

theorem C9_named_pairs_have_different_codes:
  "map_of AREA_CODES [0x96F2, 0x6797, 0x7E23] \<noteq> map_of AREA_CODES [0x5F70, 0x5316, 0x7E23] \<and>
   map_of AREA_CODES [0x5609, 0x7FA9, 0x5E02] \<noteq> map_of AREA_CODES [0x5609, 0x7FA9, 0x7E23]"
  by (simp add: AREA_CODES_def ascii_def)

text \<open>Reading the lines of two parts of a file one after the other.\<close>

lemma read_lines_append:
  "read_lines con (xs @ ys) st = bindE (read_lines con xs st) (read_lines con ys)"
proof (induction xs arbitrary: st)
  case Nil
  show ?case by (simp add: bindE_def)
next
  case (Cons x xs)
  show ?case
    by (cases "process_line con st x") (simp_all add: bindE_def Cons.IH)
qed

text \<open>
  Claim C10. A line that is neither blank nor a comment and contains no \<open>=\<close> leaves the
  state of the reader as it was, on any console: no parameter is stored, nothing is
  printed and nothing is raised. Read from a file, the line can be taken out without
  changing what \<open>read_config\<close> returns.
\<close>

theorem C10_line_without_equals_is_skipped:
  assumes "strip raw \<noteq> []"
    and "\<not> startswith (strip raw) (ascii ''#'')"
    and "of_char CHR ''='' \<notin> set raw"
  shows "process_line con st raw = Inr st \<and>
         read_config con (fs(f \<mapsto> before @ raw # after)) f
           = read_config con (fs(f \<mapsto> before @ after)) f"
proof -
  have "of_char CHR ''='' \<notin> set (strip raw)"
    using assms(3) set_strip_subset by blast
  then have skip: "process_line con st' raw = Inr st'" for st'
    using assms(1,2) by (simp add: process_line_def Let_def)
  then have "read_lines con (raw # after) = read_lines con after"
    by (intro ext) (simp add: bindE_def)
  then have "read_lines con (before @ raw # after) st' = read_lines con (before @ after) st'" for st'
    by (simp add: read_lines_append)
  with skip show ?thesis
    by (simp add: read_config_def)
qed

theorem C10_line_without_equals_witness:
  "strip (ascii ''page 2'') \<noteq> [] \<and>
   \<not> startswith (strip (ascii ''page 2'')) (ascii ''#'') \<and>
   of_char CHR ''='' \<notin> set (ascii ''page 2'') \<and>
   process_line cp950_console \<lparr>params = [(ascii ''ro'', ascii ''1'')], printed = []\<rparr>
     (ascii ''page 2'')
     = Inr \<lparr>params = [(ascii ''ro'', ascii ''1'')], printed = []\<rparr>"
proof -
  have h1: "strip (ascii ''page 2'') \<noteq> []"
    by (simp add: strip_def isspace_def ascii_def)
  have h2: "\<not> startswith (strip (ascii ''page 2'')) (ascii ''#'')"
    by (simp add: strip_def isspace_def ascii_def startswith_def)
  have h3: "of_char CHR ''='' \<notin> set (ascii ''page 2'')"
    by (simp add: ascii_def)
  show ?thesis
    using h1 h2 h3 C10_line_without_equals_is_skipped [OF h1 h2 h3] by simp
qed

section \<open>Properties of the normalisation\<close>

lemma section_field_of:
  "dict_get info k (JObj []) = Inr s \<Longrightarrow> dict_get s k' d = Inr x \<Longrightarrow>
   field_of s k' = field_of (field_of info k) k'"
  by (cases info; cases s) (auto split: option.splits)

lemma dict_get_default_str:
  "dict_get e k (JStr []) = Inr x \<Longrightarrow>
   truthy x = truthy (field_of e k) \<and> (truthy x \<longrightarrow> x = field_of e k)"
  by (cases e) (auto split: option.splits)

lemma company_name_spec:
  assumes "dict_get info (ascii ''header'') (JObj []) = Inr header"
    and "dict_get info (ascii ''custInfo'') (JObj []) = Inr cust"
    and "company_name info cust header = Inr v"
  shows "v = spec_company_name info"
  using assms(3)
  unfolding company_name_def spec_company_name_def first_nonempty_def or_else_eq_Inr
  by (auto dest!: dict_get_field section_field[OF assms(1)] section_field[OF assms(2)] split: if_splits)

lemma lang_loop_eq:
  "lang_loop B langs acc = Inr ll \<Longrightarrow>
   ll = acc @ map (lang_item_of B) (filter (\<lambda>e. truthy (field_of e (ascii ''language''))) langs)"
proof (induction langs arbitrary: acc)
  case Nil
  then show ?case by simp
next
  case (Cons lang rest)
  from Cons.prems obtain lang_item ability where
    li: "dict_get lang (ascii ''language'') (JStr []) = Inr lang_item" and
    ab: "dict_get lang (ascii ''ability'') (JStr []) = Inr ability" and
    rest: "(if truthy lang_item then
         lang_loop B rest
           (acc @ [if truthy ability
               then JStr (str_of B lang_item @ ascii '':'' @ str_of B ability)
               else lang_item])
       else lang_loop B rest acc) = Inr ll"
    by (auto simp: bindE_eq_Inr)
  note l = dict_get_default_str[OF li] and a = dict_get_default_str[OF ab]
  show ?case
  proof (cases "truthy lang_item")
    case True
    with l have named: "truthy (field_of lang (ascii ''language''))"
      and li_eq: "lang_item = field_of lang (ascii ''language'')"
      by simp_all
    have item: "(if truthy ability
               then JStr (str_of B lang_item @ ascii '':'' @ str_of B ability)
               else lang_item) = lang_item_of B lang"
    proof (cases "truthy ability")
      case True
      with a have "ability = field_of lang (ascii ''ability'')" by simp
      with True li_eq show ?thesis by (simp add: lang_item_of_def)
    next
      case False
      with a have "\<not> truthy (field_of lang (ascii ''ability''))" by simp
      with False li_eq show ?thesis by (simp add: lang_item_of_def)
    qed
    from rest True have "lang_loop B rest (acc @ [lang_item_of B lang]) = Inr ll"
      by (simp only: item if_True)
    from Cons.IH[OF this] named show ?thesis by simp
  next
    case False
    with l have "\<not> truthy (field_of lang (ascii ''language''))" by simp
    moreover from rest False have "lang_loop B rest acc = Inr ll" by simp
    ultimately show ?thesis using Cons.IH[of acc] by simp
  qed
qed

lemma py_iter_entries:
  "py_iter entries = Inr langs \<Longrightarrow> lang_loop B langs acc = Inr ll \<Longrightarrow> langs = entries_of entries"
proof (cases entries)
  case (JStr s)
  assume "py_iter entries = Inr langs" "lang_loop B langs acc = Inr ll"
  with JStr show ?thesis by (cases s) (auto simp: bindE_def)
next
  case (JObj kvs)
  assume "py_iter entries = Inr langs" "lang_loop B langs acc = Inr ll"
  with JObj show ?thesis by (cases kvs) (auto simp: bindE_def)
qed auto

lemma str_join_eq: "str_join sep xs = Inr v \<Longrightarrow> list_all is_str xs \<and> v = JStr (join sep (map the_str xs))"
  by (auto simp: str_join_def split: if_splits)

lemma the_str_lang_item: "is_str (lang_item_of B e) \<Longrightarrow> the_str (lang_item_of B e) = format_entry B e"
  by (cases "field_of e (ascii ''language'')") (auto simp: lang_item_of_def format_entry_def)

lemma language_spec:
  assumes "language B condition = Inr v"
  shows "v = JStr (named_language B (entries_of (field_of condition (ascii ''language''))))"
proof -
  from assms obtain entries langs ll where
    e: "dict_get condition (ascii ''language'') (JList []) = Inr entries" and
    i: "py_iter entries = Inr langs" and
    l: "lang_loop B langs [] = Inr ll" and
    v: "(if ll \<noteq> [] then str_join (ascii '', '') ll else Inr (JStr unspecified)) = Inr v"
    by (auto simp: language_def bindE_eq_Inr)
  have "entries_of entries = entries_of (field_of condition (ascii ''language''))"
    using e by (cases condition) (auto split: option.splits)
  with py_iter_entries[OF i l] have langs: "langs = entries_of (field_of condition (ascii ''language''))"
    by simp
  define named where "named = filter (\<lambda>e. truthy (field_of e (ascii ''language''))) langs"
  have ll: "ll = map (lang_item_of B) named"
    using lang_loop_eq[OF l] by (simp add: named_def)
  show ?thesis
  proof (cases "named = []")
    case True
    with ll v show ?thesis by (simp add: named_language_def langs[symmetric] named_def)
  next
    case False
    with ll v have j: "str_join (ascii '', '') ll = Inr v" by simp
    from str_join_eq[OF j] have "list_all is_str ll" and vv: "v = JStr (join (ascii '', '') (map the_str ll))"
      by auto
    then have "map the_str ll = map (format_entry B) named"
      unfolding ll by (auto simp: list_all_iff the_str_lang_item)
    with vv False show ?thesis
      by (simp add: named_language_def langs[symmetric] named_def[symmetric] Let_def)
  qed
qed

lemma desc_list_eq:
  "desc_list xs = Inr ds \<Longrightarrow> ds = filter truthy (map (\<lambda>e. field_of e (ascii ''desc'')) xs)"
proof (induction xs arbitrary: ds)
  case Nil
  then show ?case by simp
next
  case (Cons sp rest)
  from Cons.prems obtain d where d: "dict_get sp (ascii ''desc'') JNull = Inr d"
    by (auto simp: bindE_eq_Inr)
  note f = dict_get_field[OF d]
  show ?case
  proof (cases "truthy d")
    case True
    with Cons.prems d obtain d' ds' where
      d': "dict_get sp (ascii ''desc'') (JStr []) = Inr d'" and
      r: "desc_list rest = Inr ds'" and ds: "ds = d' # ds'"
      by (auto simp: bindE_eq_Inr)
    from True f have t: "truthy (field_of sp (ascii ''desc''))" by simp
    with dict_get_default_str[OF d'] have "d' = field_of sp (ascii ''desc'')" by simp
    with t ds Cons.IH[OF r] show ?thesis by simp
  next
    case False
    with f have t: "\<not> truthy (field_of sp (ascii ''desc''))" by simp
    from Cons.prems d False have "desc_list rest = Inr ds" by (simp add: bindE_def)
    from Cons.IH[OF this] t show ?thesis by simp
  qed
qed

lemma dispatch_other:
  assumes "bindE (dict_get detail key JNull) (\<lambda>d. Inr (if truthy d then d else JStr [])) = Inr w"
  shows "(if truthy w then w else JStr unspecified) =
         (if truthy (field_of detail key) then field_of detail key else JStr unspecified)"
proof -
  from assms obtain d where d: "dict_get detail key JNull = Inr d"
    and w: "w = (if truthy d then d else JStr [])"
    by (auto simp: bindE_eq_Inr)
  from dict_get_field[OF d] w show ?thesis by simp
qed

lemma dispatch_spec:
  assumes "dispatch key condition detail = Inr v"
  shows "v = nonempty_dispatch (field_of condition key) (field_of detail key)"
proof -
  from assms obtain c w where
    c: "dict_get condition key JNull = Inr c" and
    w: "(case c of
              JList xs \<Rightarrow> bindE (desc_list xs) (str_join (ascii '', ''))
            | JStr s \<Rightarrow> Inr c
            | _ \<Rightarrow> bindE (dict_get detail key JNull) (\<lambda>d.
                     Inr (if truthy d then d else JStr []))) = Inr w" and
    v: "v = (if truthy w then w else JStr unspecified)"
    by (auto simp: dispatch_def bindE_eq_Inr)
  have cf: "field_of condition key = c"
    using dict_get_field[OF c] by simp
  have "v = (let u = (case c of
                 JList xs \<Rightarrow>
                   JStr (join (ascii '', '')
                     (map the_str (filter truthy (map (\<lambda>e. field_of e (ascii ''desc'')) xs))))
               | JStr s \<Rightarrow> c
               | _ \<Rightarrow> field_of detail key)
      in if truthy u then u else JStr unspecified)" (is ?goal)
  proof (cases c)
    case (JList xs)
    with w obtain ds where "desc_list xs = Inr ds" "str_join (ascii '', '') ds = Inr w"
      by (auto simp: bindE_eq_Inr)
    with desc_list_eq[of xs ds] str_join_eq[of "ascii '', ''" ds w] JList v show ?goal
      by simp
  next
    case (JStr s)
    with w v show ?goal by auto
  next
    case JNull
    with w v dispatch_other[of detail key w] show ?goal by simp
  next
    case (JBool b)
    with w v dispatch_other[of detail key w] show ?goal by simp
  next
    case (JInt i)
    with w v dispatch_other[of detail key w] show ?goal by simp
  next
    case (JFloat m e)
    with w v dispatch_other[of detail key w] show ?goal by simp
  next
    case (JObj kvs)
    with w v dispatch_other[of detail key w] show ?goal by simp
  qed
  then show ?thesis by (simp add: nonempty_dispatch_def cf)
qed


text \<open>The definitions that a run on a concrete document unfolds.\<close>

lemmas eval_defs =
  normalize_detail_def job_data_of_def company_name_def job_name_def language_def
  specialty_def skills_def dispatch_def other_condition_def location_def description_def
  or_else_def bindE_def str_join_def strip_def ascii_def field_value_def
  plain_builtins_def empty_sections_def

lemma normalize_fields:
  assumes "normalize_detail B job_id info = Inr r"
  obtains header detail condition cust welfare
    v_company v_job v_language v_specialty v_skills v_other where
    "dict_get info (ascii ''header'') (JObj []) = Inr header"
    "dict_get info (ascii ''jobDetail'') (JObj []) = Inr detail"
    "dict_get info (ascii ''condition'') (JObj []) = Inr condition"
    "dict_get info (ascii ''custInfo'') (JObj []) = Inr cust"
    "dict_get info (ascii ''welfare'') (JObj []) = Inr welfare"
    "company_name info cust header = Inr v_company"
    "job_name info detail header = Inr v_job"
    "language B condition = Inr v_language"
    "specialty condition detail = Inr v_specialty"
    "skills condition detail = Inr v_skills"
    "other_condition B info condition detail = Inr v_other"
    "job_data_of B job_id header detail condition welfare
         v_company v_job v_language v_specialty v_skills v_other = Inr r"
  using assms unfolding normalize_detail_def bindE_eq_Inr by blast

lemma job_data_of_fields:
  assumes "job_data_of B job_id header detail condition welfare
         v_company v_job v_language v_specialty v_skills v_other = Inr r"
  shows "map fst r = job_data_keys"
    and "map_of r k_company = Some v_company"
    and "map_of r k_job = Some v_job"
    and "map_of r k_language = Some v_language"
    and "map_of r k_specialty = Some v_specialty"
    and "map_of r k_skills = Some v_skills"
proof -
  from assms obtain a b c d e f g h where
    r: "r = [(k_company, v_company), (k_job, v_job), (k_location, a),
            (k_workexp, b), (k_edu, c), (k_language, v_language),
            (k_specialty, v_specialty), (k_skills, v_skills), (k_salary, d),
            (k_welfare, e), (k_needemp, f),
            (k_description, g), (k_other, v_other), (k_date, h),
            (k_link, JStr (ascii ''https://www.104.com.tw/job/'' @ job_id))]"
    unfolding job_data_of_def bindE_eq_Inr by blast
  show "map fst r = job_data_keys" by (simp add: r job_data_keys_def)
  show "map_of r k_company = Some v_company" by (simp add: r)
  show "map_of r k_job = Some v_job"
    by (simp add: r k_company_def k_job_def)
  show "map_of r k_language = Some v_language"
    by (simp add: r k_company_def k_job_def k_location_def k_workexp_def k_edu_def k_language_def)
  show "map_of r k_specialty = Some v_specialty"
    by (simp add: r k_company_def k_job_def k_location_def k_workexp_def k_edu_def k_language_def
        k_specialty_def)
  show "map_of r k_skills = Some v_skills"
    by (simp add: r k_company_def k_job_def k_location_def k_workexp_def k_edu_def k_language_def
        k_specialty_def k_skills_def)
qed

text \<open>
  The chain of the company name, for a business-data object that is a mapping: it returns
  the value of the specification's chain where the sections it reads are mappings, and
  raises \<open>AttributeError\<close> where one of them is not.
\<close>

lemma field_of_section: "field_of (section_of info k) k' = field_of (field_of info k) k'"
proof (cases info)
  case (JObj kvs)
  then show ?thesis by (cases "map_of kvs k") simp_all
qed simp_all

lemma dict_get_section: "dict_get (JObj kvs) k (JObj []) = Inr (section_of (JObj kvs) k)"
  by simp

lemma dict_get_obj: "is_obj v \<Longrightarrow> dict_get v k JNull = Inr (field_of v k)"
  by (cases v) simp_all

lemma dict_get_not_obj: "\<not> is_obj v \<Longrightarrow> dict_get v k d = Inl AttributeError"
  by (cases v) simp_all

lemma field_of_not_obj: "\<not> is_obj v \<Longrightarrow> field_of v k = JNull"
  by (cases v) simp_all

lemma company_name_total:
  "company_name (JObj kvs) (section_of (JObj kvs) (ascii ''custInfo''))
     (section_of (JObj kvs) (ascii ''header'')) =
   (if company_sections_ok (JObj kvs) then Inr (spec_company_name (JObj kvs))
    else Inl AttributeError)"
proof -
  let ?info = "JObj kvs"
  let ?cust = "section_of ?info (ascii ''custInfo'')"
  let ?header = "section_of ?info (ascii ''header'')"
  let ?a = "field_of ?info (ascii ''custName'')"
  let ?b = "field_of ?cust (ascii ''custName'')"
  let ?c = "field_of ?header (ascii ''custName'')"
  have spec: "spec_company_name ?info = first_nonempty [?a, ?b, ?c] (JStr unknown_company)"
    by (simp only: spec_company_name_def field_of_section)
  have a: "dict_get ?info (ascii ''custName'') JNull = Inr ?a"
    by (rule dict_get_obj) simp
  show ?thesis
  proof (cases "truthy ?a")
    case True
    then show ?thesis
      by (simp add: company_name_def or_else_def bindE_def a spec first_nonempty_def
          company_sections_ok_def del: dict_get.simps field_of.simps section_of.simps)
  next
    case na: False
    show ?thesis
    proof (cases "is_obj ?cust")
      case False
      with na dict_get_not_obj[OF False] show ?thesis
        by (simp add: company_name_def or_else_def bindE_def a company_sections_ok_def
            del: dict_get.simps field_of.simps section_of.simps)
    next
      case cust: True
      note b = dict_get_obj[OF cust, of "ascii ''custName''"]
      show ?thesis
      proof (cases "truthy ?b")
        case True
        with na cust show ?thesis
          by (simp add: company_name_def or_else_def bindE_def a b spec first_nonempty_def
              company_sections_ok_def del: dict_get.simps field_of.simps section_of.simps)
      next
        case nb: False
        show ?thesis
        proof (cases "is_obj ?header")
          case False
          with na nb cust dict_get_not_obj[OF False] show ?thesis
            by (simp add: company_name_def or_else_def bindE_def a b company_sections_ok_def
                del: dict_get.simps field_of.simps section_of.simps)
        next
          case True
          note c = dict_get_obj[OF True, of "ascii ''custName''"]
          from na nb cust True show ?thesis
            by (simp add: company_name_def or_else_def bindE_def a b c spec first_nonempty_def
                company_sections_ok_def del: dict_get.simps field_of.simps section_of.simps)
        qed
      qed
    qed
  qed
qed

text \<open>
  Claim C2, as the code has it. For every business-data object that is a mapping: where
  the sections that the chain reads are mappings (an absent section counts as the empty
  mapping), the company name is computed as the value of the specification's chain, the
  top-level name, else the name of the employer-info section, else the name of the header
  section, each passed over when it is absent or empty, else the placeholder; where one
  of those sections is no mapping the computation raises \<open>AttributeError\<close>. Whenever the
  normalisation returns a record, the sections were mappings and the company name of the
  record is that value. The value is the placeholder where all three names are absent or
  empty, and the name of the header section unchanged where it is the only one that is
  not.
\<close>

theorem C2_company_name_chain_over_mappings:
  "company_name (JObj kvs) (section_of (JObj kvs) (ascii ''custInfo''))
     (section_of (JObj kvs) (ascii ''header'')) =
     (if company_sections_ok (JObj kvs) then Inr (spec_company_name (JObj kvs))
      else Inl AttributeError) \<and>
   (\<forall>r. normalize_detail B job_id (JObj kvs) = Inr r \<longrightarrow>
      company_sections_ok (JObj kvs) \<and>
      map_of r k_company = Some (spec_company_name (JObj kvs))) \<and>
   (\<not> truthy (field_of (JObj kvs) (ascii ''custName'')) \<and>
    \<not> truthy (field_of (field_of (JObj kvs) (ascii ''custInfo'')) (ascii ''custName'')) \<and>
    \<not> truthy (field_of (field_of (JObj kvs) (ascii ''header'')) (ascii ''custName''))
    \<longrightarrow> spec_company_name (JObj kvs) = JStr unknown_company) \<and>
   (\<not> truthy (field_of (JObj kvs) (ascii ''custName'')) \<and>
    \<not> truthy (field_of (field_of (JObj kvs) (ascii ''custInfo'')) (ascii ''custName'')) \<and>
    truthy (field_of (field_of (JObj kvs) (ascii ''header'')) (ascii ''custName''))
    \<longrightarrow> spec_company_name (JObj kvs) =
         field_of (field_of (JObj kvs) (ascii ''header'')) (ascii ''custName''))"
proof -
  have rec: "company_sections_ok (JObj kvs) \<and>
      map_of r k_company = Some (spec_company_name (JObj kvs))"
    if "normalize_detail B job_id (JObj kvs) = Inr r" for r
  proof -
    from that obtain header detail condition cust welfare
      v_company v_job v_language v_specialty v_skills v_other where
      h: "dict_get (JObj kvs) (ascii ''header'') (JObj []) = Inr header" and
      c: "dict_get (JObj kvs) (ascii ''custInfo'') (JObj []) = Inr cust" and
      n: "company_name (JObj kvs) cust header = Inr v_company" and
      r: "job_data_of B job_id header detail condition welfare
           v_company v_job v_language v_specialty v_skills v_other = Inr r"
      by (rule normalize_fields)
    from h have h': "header = section_of (JObj kvs) (ascii ''header'')"
      by (simp only: dict_get_section sum.inject)
    from c have c': "cust = section_of (JObj kvs) (ascii ''custInfo'')"
      by (simp only: dict_get_section sum.inject)
    from n have ok: "company_sections_ok (JObj kvs)"
      unfolding h' c' company_name_total by (simp split: if_splits)
    with n have "v_company = spec_company_name (JObj kvs)"
      unfolding h' c' company_name_total by simp
    with ok job_data_of_fields(2)[OF r] show ?thesis by simp
  qed
  have all_empty: "\<not> truthy (field_of (JObj kvs) (ascii ''custName'')) \<and>
    \<not> truthy (field_of (field_of (JObj kvs) (ascii ''custInfo'')) (ascii ''custName'')) \<and>
    \<not> truthy (field_of (field_of (JObj kvs) (ascii ''header'')) (ascii ''custName''))
    \<longrightarrow> spec_company_name (JObj kvs) = JStr unknown_company"
    by (simp add: spec_company_name_def first_nonempty_def del: field_of.simps)
  have lowest: "\<not> truthy (field_of (JObj kvs) (ascii ''custName'')) \<and>
    \<not> truthy (field_of (field_of (JObj kvs) (ascii ''custInfo'')) (ascii ''custName'')) \<and>
    truthy (field_of (field_of (JObj kvs) (ascii ''header'')) (ascii ''custName''))
    \<longrightarrow> spec_company_name (JObj kvs) =
         field_of (field_of (JObj kvs) (ascii ''header'')) (ascii ''custName'')"
    by (simp add: spec_company_name_def first_nonempty_def del: field_of.simps)
  from company_name_total[of kvs] rec all_empty lowest show ?thesis
    by blast
qed

text \<open>
  A document whose only company name is that of the header section, and a document
  without any company name.
\<close>

theorem C2_company_name_witness:
  "(\<exists>r. normalize_detail plain_builtins (ascii ''abc'')
          (JObj [(ascii ''header'', JObj [(ascii ''custName'', JStr (ascii ''Acme''))])]) = Inr r \<and>
        map_of r k_company = Some (JStr (ascii ''Acme''))) \<and>
   (\<exists>r. normalize_detail plain_builtins (ascii ''abc'')
          (JObj [(ascii ''jobDetail'', JObj [(ascii ''jobName'', JStr (ascii ''Welder''))])]) = Inr r \<and>
        map_of r k_company = Some (JStr unknown_company))"
proof -
  obtain r where h: "normalize_detail plain_builtins (ascii ''abc'')
          (JObj [(ascii ''header'', JObj [(ascii ''custName'', JStr (ascii ''Acme''))])]) = Inr r"
    by (simp add: eval_defs)
  from C2_company_name_chain_over_mappings
    [of "[(ascii ''header'', JObj [(ascii ''custName'', JStr (ascii ''Acme''))])]"
      plain_builtins "ascii ''abc''"] h
  have "map_of r k_company = Some (JStr (ascii ''Acme''))"
    by (simp add: spec_company_name_def first_nonempty_def ascii_def)
  with h have first: "\<exists>r. normalize_detail plain_builtins (ascii ''abc'')
          (JObj [(ascii ''header'', JObj [(ascii ''custName'', JStr (ascii ''Acme''))])]) = Inr r \<and>
        map_of r k_company = Some (JStr (ascii ''Acme''))"
    by blast
  obtain r' where h': "normalize_detail plain_builtins (ascii ''abc'')
          (JObj [(ascii ''jobDetail'', JObj [(ascii ''jobName'', JStr (ascii ''Welder''))])]) = Inr r'"
    by (simp add: eval_defs)
  from C2_company_name_chain_over_mappings
    [of "[(ascii ''jobDetail'', JObj [(ascii ''jobName'', JStr (ascii ''Welder''))])]"
      plain_builtins "ascii ''abc''"] h'
  have "map_of r' k_company = Some (JStr unknown_company)"
    by (simp add: spec_company_name_def first_nonempty_def ascii_def)
  with h' have "\<exists>r. normalize_detail plain_builtins (ascii ''abc'')
          (JObj [(ascii ''jobDetail'', JObj [(ascii ''jobName'', JStr (ascii ''Welder''))])]) = Inr r \<and>
        map_of r k_company = Some (JStr unknown_company)"
    by blast
  with first show ?thesis by blast
qed

text \<open>
  Claim C2 as stated fails on a document whose employer-info section is \<open>null\<close>: all three
  names are absent, so the chain of the specification has the placeholder, but
  \<open>cust.get\<close> raises \<open>AttributeError\<close> and there is no record.
\<close>

theorem C2_null_employer_section_raises:
  "normalize_detail plain_builtins (ascii ''abc'') (JObj [(ascii ''custInfo'', JNull)])
     = Inl AttributeError \<and>
   spec_company_name (JObj [(ascii ''custInfo'', JNull)]) = JStr unknown_company"
  by (simp add: eval_defs spec_company_name_def first_nonempty_def)

text \<open>
  Claim C3, as the code has it. Whenever the normalisation returns a record, its language
  field is made from the entries of the eligibility section's language list that name a
  language: each is formatted as \<open>language:ability\<close> when an ability is given and as
  \<open>language\<close> otherwise, and the texts are joined with a comma and a space. An entry
  without a language is left out, and the placeholder stands where no entry is left, in
  particular for an empty list.
\<close>

theorem C3_language_of_named_entries:
  assumes "normalize_detail B job_id info = Inr r"
  shows "map_of r k_language =
           Some (JStr (named_language B
             (entries_of (field_of (field_of info (ascii ''condition'')) (ascii ''language'')))))"
proof -
  from assms obtain header detail condition cust welfare
    v_company v_job v_language v_specialty v_skills v_other where
    c: "dict_get info (ascii ''condition'') (JObj []) = Inr condition" and
    l: "language B condition = Inr v_language" and
    r: "job_data_of B job_id header detail condition welfare
         v_company v_job v_language v_specialty v_skills v_other = Inr r"
    by (rule normalize_fields)
  from l obtain entries where e: "dict_get condition (ascii ''language'') (JList []) = Inr entries"
    by (auto simp: language_def bindE_eq_Inr)
  from section_field_of[OF c e] language_spec[OF l] job_data_of_fields(4)[OF r]
  show ?thesis by simp
qed

text \<open>Scenario B of the specification: English with the ability Fluent, Japanese with none.\<close>

theorem C3_language_witness:
  "\<exists>r. normalize_detail plain_builtins (ascii ''abc'')
          (JObj [(ascii ''condition'', JObj [(ascii ''language'', JList
             [JObj [(ascii ''language'', JStr (ascii ''English'')), (ascii ''ability'', JStr (ascii ''Fluent''))],
              JObj [(ascii ''language'', JStr (ascii ''Japanese'')), (ascii ''ability'', JStr [])]])])]) = Inr r \<and>
        map_of r k_language = Some (JStr (ascii ''English:Fluent, Japanese''))"
proof -
  obtain r where h: "normalize_detail plain_builtins (ascii ''abc'')
          (JObj [(ascii ''condition'', JObj [(ascii ''language'', JList
             [JObj [(ascii ''language'', JStr (ascii ''English'')), (ascii ''ability'', JStr (ascii ''Fluent''))],
              JObj [(ascii ''language'', JStr (ascii ''Japanese'')), (ascii ''ability'', JStr [])]])])]) = Inr r"
    by (simp add: eval_defs)
  from C3_language_of_named_entries[OF h]
  have "map_of r k_language = Some (JStr (ascii ''English:Fluent, Japanese''))"
    by (simp add: named_language_def format_entry_def ascii_def)
  with h show ?thesis by blast
qed

text \<open>
  Claim C3 as stated fails on a list whose one entry has an ability and an empty language:
  formatted and joined as the claim says the field would be \<open>:Fluent\<close>, and the list is
  not empty, but the field is the placeholder.
\<close>

theorem C3_unnamed_entry_is_left_out:
  "field_value
     (normalize_detail plain_builtins (ascii ''abc'')
        (JObj [(ascii ''condition'', JObj [(ascii ''language'', JList
           [JObj [(ascii ''language'', JStr []), (ascii ''ability'', JStr (ascii ''Fluent''))]])])]))
     k_language = Some (JStr unspecified) \<and>
   spec_language plain_builtins
     [JObj [(ascii ''language'', JStr []), (ascii ''ability'', JStr (ascii ''Fluent''))]]
     = ascii '':Fluent'' \<and>
   unspecified \<noteq> ascii '':Fluent''"
  by (simp add: eval_defs spec_language_def format_entry_def unspecified_def
      k_company_def k_job_def k_location_def k_workexp_def k_edu_def k_language_def)

text \<open>
  Claim C4, as the code has it. Whenever the normalisation returns a record, the tools
  field and the skills field are each the result of the same dispatch on the field of the
  eligibility section (\<open>specialty\<close>, \<open>skill\<close>): a list gives the descriptions of its
  entries that are not empty, joined with a comma and a space; a string gives itself;
  anything else gives the field of the job-detail section; and an empty result gives the
  placeholder.
\<close>

theorem C4_dispatch_over_nonempty_descriptions:
  assumes "normalize_detail B job_id info = Inr r"
  shows "map_of r k_specialty =
           Some (nonempty_dispatch
                   (field_of (field_of info (ascii ''condition'')) (ascii ''specialty''))
                   (field_of (field_of info (ascii ''jobDetail'')) (ascii ''specialty''))) \<and>
         map_of r k_skills =
           Some (nonempty_dispatch
                   (field_of (field_of info (ascii ''condition'')) (ascii ''skill''))
                   (field_of (field_of info (ascii ''jobDetail'')) (ascii ''skill'')))"
proof -
  from assms obtain header detail condition cust welfare
    v_company v_job v_language v_specialty v_skills v_other where
    d: "dict_get info (ascii ''jobDetail'') (JObj []) = Inr detail" and
    c: "dict_get info (ascii ''condition'') (JObj []) = Inr condition" and
    j: "job_name info detail header = Inr v_job" and
    sp: "specialty condition detail = Inr v_specialty" and
    sk: "skills condition detail = Inr v_skills" and
    r: "job_data_of B job_id header detail condition welfare
         v_company v_job v_language v_specialty v_skills v_other = Inr r"
    by (rule normalize_fields)
  from j obtain x where dx: "dict_get detail (ascii ''jobName'') JNull = Inr x"
    by (auto simp: job_name_def or_else_eq_Inr)
  from sp obtain y where cy: "dict_get condition (ascii ''specialty'') JNull = Inr y"
    by (auto simp: specialty_def dispatch_def bindE_eq_Inr)
  have det: "field_of detail k = field_of (field_of info (ascii ''jobDetail'')) k" for k
    using d dx by (cases info; cases detail) (auto split: option.splits)
  have con: "field_of condition k = field_of (field_of info (ascii ''condition'')) k" for k
    using c cy by (cases info; cases condition) (auto split: option.splits)
  from dispatch_spec[OF sp[unfolded specialty_def]] dispatch_spec[OF sk[unfolded skills_def]]
    job_data_of_fields(5,6)[OF r]
  show ?thesis by (simp add: det con)
qed

text \<open>A document with a list of two tools and a skill given as a string.\<close>

theorem C4_dispatch_witness:
  "\<exists>r. normalize_detail plain_builtins (ascii ''abc'')
          (JObj [(ascii ''condition'', JObj [(ascii ''specialty'', JList
                    [JObj [(ascii ''desc'', JStr (ascii ''Excel''))],
                     JObj [(ascii ''desc'', JStr (ascii ''Word''))]]),
                   (ascii ''skill'', JStr (ascii ''welding''))])]) = Inr r \<and>
        map_of r k_specialty = Some (JStr (ascii ''Excel, Word'')) \<and>
        map_of r k_skills = Some (JStr (ascii ''welding''))"
proof -
  obtain r where h: "normalize_detail plain_builtins (ascii ''abc'')
          (JObj [(ascii ''condition'', JObj [(ascii ''specialty'', JList
                    [JObj [(ascii ''desc'', JStr (ascii ''Excel''))],
                     JObj [(ascii ''desc'', JStr (ascii ''Word''))]]),
                   (ascii ''skill'', JStr (ascii ''welding''))])]) = Inr r"
    by (simp add: eval_defs)
  from C4_dispatch_over_nonempty_descriptions[OF h]
  have "map_of r k_specialty = Some (JStr (ascii ''Excel, Word'')) \<and>
        map_of r k_skills = Some (JStr (ascii ''welding''))"
    by (simp add: nonempty_dispatch_def ascii_def)
  with h show ?thesis by blast
qed

text \<open>
  Claim C4 as stated fails on a list with an empty description: the join of the
  description of each entry would end in a comma and a space, and the field does not.
\<close>

theorem C4_empty_description_is_left_out:
  "field_value
     (normalize_detail plain_builtins (ascii ''abc'')
        (JObj [(ascii ''condition'', JObj [(ascii ''specialty'', JList
                 [JObj [(ascii ''desc'', JStr (ascii ''Excel''))],
                  JObj [(ascii ''desc'', JStr [])]])])]))
     k_specialty = Some (JStr (ascii ''Excel'')) \<and>
   spec_dispatch
     (JList [JObj [(ascii ''desc'', JStr (ascii ''Excel''))], JObj [(ascii ''desc'', JStr [])]])
     JNull = JStr (ascii ''Excel, '')"
  by (simp add: eval_defs spec_dispatch_def
      k_company_def k_job_def k_location_def k_workexp_def k_edu_def k_language_def k_specialty_def)


lemma str_or_empty:
  assumes "case_option True (\<lambda>v. is_str v \<or> \<not> truthy v) (map_of kvs k)"
  shows "\<exists>s. or_else (dict_get (JObj kvs) k JNull) (Inr (JStr p)) = Inr (JStr s)"
proof (cases "map_of kvs k")
  case None
  then show ?thesis by (simp add: or_else_def bindE_def)
next
  case (Some v)
  with assms show ?thesis by (cases v) (auto simp: or_else_def bindE_def)
qed

text \<open>
  Claim C1, as the code has it. For every business-data object whose five sections
  (\<open>header\<close>, \<open>jobDetail\<close>, \<open>condition\<close>, \<open>custInfo\<close>, \<open>welfare\<close>) are present and empty,
  whose top-level \<open>custName\<close> and \<open>jobName\<close> are each absent, empty or a string, and whose
  top-level \<open>requirement\<close> is absent or a mapping, the normalisation returns a record: it
  has the 15 keys of \<open>job_data\<close>, in their order, and every value is a string.
\<close>

theorem C1_empty_sections_give_a_record_of_strings:
  assumes "list_all (\<lambda>k. map_of kvs k = Some (JObj []))
             [ascii ''header'', ascii ''jobDetail'', ascii ''condition'', ascii ''custInfo'', ascii ''welfare'']"
    and "case_option True (\<lambda>v. is_str v \<or> \<not> truthy v) (map_of kvs (ascii ''custName''))"
    and "case_option True (\<lambda>v. is_str v \<or> \<not> truthy v) (map_of kvs (ascii ''jobName''))"
    and "case_option True is_obj (map_of kvs (ascii ''requirement''))"
  shows "\<exists>r. normalize_detail B job_id (JObj kvs) = Inr r \<and>
             map fst r = job_data_keys \<and> list_all (\<lambda>kv. is_str (snd kv)) r"
proof -
  from str_or_empty[OF assms(2)] obtain c where
    c: "or_else (dict_get (JObj kvs) (ascii ''custName'') JNull) (Inr (JStr unknown_company)) = Inr (JStr c)"
    by blast
  from str_or_empty[OF assms(3)] obtain j where
    j: "or_else (dict_get (JObj kvs) (ascii ''jobName'') JNull) (Inr (JStr unnamed_job)) = Inr (JStr j)"
    by blast
  have company: "company_name (JObj kvs) (JObj []) (JObj []) = Inr (JStr c)"
    using c by (simp add: company_name_def or_else_def bindE_def)
  have job: "job_name (JObj kvs) (JObj []) (JObj []) = Inr (JStr j)"
    using j by (simp add: job_name_def or_else_def bindE_def)
  have lang: "language B (JObj []) = Inr (JStr unspecified)"
    by (simp add: language_def bindE_def)
  have spec: "dispatch k (JObj []) (JObj []) = Inr (JStr unspecified)" for k
    by (simp add: dispatch_def bindE_def unspecified_def)
  have other: "\<exists>s. other_condition B (JObj kvs) (JObj []) (JObj []) = Inr (JStr s)"
  proof (cases "map_of kvs (ascii ''requirement'')")
    case None
    then show ?thesis by (simp add: other_condition_def or_else_def bindE_def)
  next
    case (Some v)
    with assms(4) obtain req where "v = JObj req" by (cases v) auto
    with Some show ?thesis by (simp add: other_condition_def or_else_def bindE_def)
  qed
  then obtain oc where oc: "other_condition B (JObj kvs) (JObj []) (JObj []) = Inr (JStr oc)"
    by blast
  have data: "job_data_of B job_id (JObj []) (JObj []) (JObj []) (JObj [])
      (JStr c) (JStr j) (JStr unspecified) (JStr unspecified) (JStr unspecified) (JStr oc)
    = Inr [(k_company, JStr c), (k_job, JStr j), (k_location, JStr []),
            (k_workexp, JStr []), (k_edu, JStr []), (k_language, JStr unspecified),
            (k_specialty, JStr unspecified), (k_skills, JStr unspecified), (k_salary, JStr []),
            (k_welfare, JStr []), (k_needemp, JStr []),
            (k_description, JStr []), (k_other, JStr oc), (k_date, JStr []),
            (k_link, JStr (ascii ''https://www.104.com.tw/job/'' @ job_id))]"
    by (simp add: job_data_of_def location_def description_def or_else_def bindE_def strip_def)
  have "normalize_detail B job_id (JObj kvs) =
      Inr [(k_company, JStr c), (k_job, JStr j), (k_location, JStr []),
            (k_workexp, JStr []), (k_edu, JStr []), (k_language, JStr unspecified),
            (k_specialty, JStr unspecified), (k_skills, JStr unspecified), (k_salary, JStr []),
            (k_welfare, JStr []), (k_needemp, JStr []),
            (k_description, JStr []), (k_other, JStr oc), (k_date, JStr []),
            (k_link, JStr (ascii ''https://www.104.com.tw/job/'' @ job_id))]"
    using assms(1) by (simp add: normalize_detail_def company job lang spec specialty_def skills_def oc data bindE_def)
  then show ?thesis by (simp add: job_data_keys_def)
qed

text \<open>The object that has the five empty sections and nothing else.\<close>

theorem C1_empty_sections_witness:
  "\<exists>r. normalize_detail plain_builtins (ascii ''abc'') (JObj empty_sections) = Inr r \<and>
             map fst r = job_data_keys \<and> list_all (\<lambda>kv. is_str (snd kv)) r"
proof -
  have h1: "list_all (\<lambda>k. map_of empty_sections k = Some (JObj []))
             [ascii ''header'', ascii ''jobDetail'', ascii ''condition'', ascii ''custInfo'', ascii ''welfare'']"
    by (simp add: empty_sections_def ascii_def)
  have h2: "case_option True (\<lambda>v. is_str v \<or> \<not> truthy v) (map_of empty_sections (ascii ''custName''))"
    by (simp add: empty_sections_def ascii_def)
  have h3: "case_option True (\<lambda>v. is_str v \<or> \<not> truthy v) (map_of empty_sections (ascii ''jobName''))"
    by (simp add: empty_sections_def ascii_def)
  have h4: "case_option True is_obj (map_of empty_sections (ascii ''requirement''))"
    by (simp add: empty_sections_def ascii_def)
  show ?thesis
    by (rule C1_empty_sections_give_a_record_of_strings[OF h1 h2 h3 h4])
qed

text \<open>
  Claim C1 as stated fails on objects with the five empty sections and one more key: with
  a top-level \<open>requirement\<close> that is \<open>null\<close> the normalisation raises \<open>AttributeError\<close>, and
  with a top-level \<open>custName\<close> that is the number 104 the company name of the record is
  that number, not a string.
\<close>

theorem C1_null_requirement_raises:
  "normalize_detail plain_builtins (ascii ''abc'')
     (JObj (empty_sections @ [(ascii ''requirement'', JNull)])) = Inl AttributeError \<and>
   field_value
     (normalize_detail plain_builtins (ascii ''abc'')
        (JObj (empty_sections @ [(ascii ''custName'', JInt 104)]))) k_company = Some (JInt 104) \<and>
   \<not> is_str (JInt 104)"
  by (simp add: eval_defs)


section \<open>Properties of the detail fetcher\<close>

text \<open>
  The normalisation raises \<open>AttributeError\<close>, \<open>TypeError\<close> or \<open>OverflowError\<close> and nothing
  else; in particular never the \<open>ValueError\<close> of a listing without data.
\<close>

lemma company_name_Inl: "company_name info cust header = Inl e \<Longrightarrow> e = AttributeError"
  unfolding company_name_def or_else_eq_Inl by (auto dest: dict_get_Inl)

lemma job_name_Inl: "job_name info detail header = Inl e \<Longrightarrow> e = AttributeError"
  unfolding job_name_def or_else_eq_Inl by (auto dest: dict_get_Inl)

lemma py_iter_Inl: "py_iter v = Inl e \<Longrightarrow> e = TypeError"
  by (cases v) auto

lemma str_join_Inl: "str_join sep xs = Inl e \<Longrightarrow> e = TypeError"
  by (auto simp: str_join_def split: if_splits)

lemma lang_loop_Inl: "lang_loop B langs acc = Inl e \<Longrightarrow> e = AttributeError"
proof (induction langs arbitrary: acc)
  case Nil
  then show ?case by simp
next
  case (Cons lang rest)
  from Cons.prems show ?case
    by (auto simp: bindE_eq_Inl dest: dict_get_Inl Cons.IH split: if_splits)
qed

lemma language_Inl: "language B condition = Inl e \<Longrightarrow> e = AttributeError \<or> e = TypeError"
  unfolding language_def bindE_eq_Inl
  by (auto dest: dict_get_Inl py_iter_Inl lang_loop_Inl str_join_Inl split: if_splits)

lemma desc_list_Inl: "desc_list xs = Inl e \<Longrightarrow> e = AttributeError"
proof (induction xs)
  case Nil
  then show ?case by simp
next
  case (Cons sp rest)
  from Cons.prems show ?case
    by (auto simp: bindE_eq_Inl dest: dict_get_Inl Cons.IH split: if_splits)
qed

lemma dispatch_Inl:
  assumes "dispatch key condition detail = Inl e"
  shows "e = AttributeError \<or> e = TypeError"
proof (cases "dict_get condition key JNull")
  case (Inl e')
  with assms show ?thesis by (auto simp: dispatch_def bindE_def dest: dict_get_Inl)
next
  case (Inr c)
  with assms show ?thesis
    by (cases c)
      (auto simp: dispatch_def bindE_eq_Inl dest: dict_get_Inl desc_list_Inl str_join_Inl)
qed

lemma other_condition_Inl: "other_condition B info condition detail = Inl e \<Longrightarrow> e = AttributeError"
  unfolding other_condition_def bindE_eq_Inl or_else_eq_Inl
  by (auto dest: dict_get_Inl)

lemma py_add_Inl: "py_add B x y = Inl e \<Longrightarrow> e = TypeError \<or> e = OverflowError"
  by (cases "(B, x, y)" rule: py_add.cases) (auto split: if_splits option.splits)

lemma location_Inl: "location B detail = Inl e \<Longrightarrow> e = AttributeError \<or> e = TypeError \<or> e = OverflowError"
  unfolding location_def bindE_eq_Inl or_else_eq_Inl
  by (auto dest: dict_get_Inl py_add_Inl)

lemma description_Inl:
  assumes "description detail = Inl e"
  shows "e = AttributeError"
proof (cases "or_else (dict_get detail (ascii ''jobDescription'') (JStr [])) (Inr (JStr []))")
  case (Inl e')
  with assms show ?thesis
    by (auto simp: description_def bindE_def or_else_eq_Inl dest: dict_get_Inl)
next
  case (Inr d)
  with assms show ?thesis
    by (cases d) (auto simp: description_def bindE_def)
qed

lemma job_data_of_Inl:
  "job_data_of B job_id header detail condition welfare a b c d f g = Inl e \<Longrightarrow>
   e = AttributeError \<or> e = TypeError \<or> e = OverflowError"
  unfolding job_data_of_def bindE_eq_Inl
  by (auto dest: dict_get_Inl location_Inl description_Inl)

lemma normalize_detail_Inl:
  "normalize_detail B job_id info = Inl e \<Longrightarrow>
   e = AttributeError \<or> e = TypeError \<or> e = OverflowError"
  unfolding normalize_detail_def bindE_eq_Inl specialty_def skills_def
  by (auto dest: dict_get_Inl company_name_Inl job_name_Inl language_Inl dispatch_Inl
      other_condition_Inl job_data_of_Inl)


text \<open>
  The request, for a body that is parsed to a JSON object under a status that does not
  raise.
\<close>

lemma fetch_document_object:
  assumes "net (ascii ''https://www.104.com.tw/job/ajax/content/'' @ job_id)
             = Response status (Parsed (JObj body))"
    and "\<not> (400 \<le> status \<and> status < 600)"
  shows "fetch_document net job_id =
           (if truthy (field_of (JObj body) (ascii ''data''))
            then Inr (field_of (JObj body) (ascii ''data''))
            else Inl (ValueError withdrawn_msg))"
  using assms by (simp add: fetch_document_def raise_for_status_def bindE_def)

text \<open>
  Claim C8, as the code has it. For every response with a status that \<open>raise_for_status\<close>
  lets pass and a well-formed JSON body that \<open>res.json()\<close> parses, and parses to a JSON
  object: the fetching part of \<open>fetch_job_detail\<close> (request, status, body, test of
  \<open>data\<close>) raises if and only if the top-level \<open>data\<close> is absent or empty, and what it
  raises then is the \<open>ValueError\<close> with the message of a withdrawn or incomplete listing;
  \<open>fetch_job_detail\<close> as a whole raises that \<open>ValueError\<close> if and only if \<open>data\<close> is absent
  or empty. That error is not the \<open>HTTPError\<close> which a status from 400 to 599 raises.
\<close>

theorem C8_withdrawn_error_iff_no_data:
  assumes "net (ascii ''https://www.104.com.tw/job/ajax/content/'' @ extract_id ref)
             = Response status (Parsed (JObj body))"
    and "\<not> (400 \<le> status \<and> status < 600)"
  shows "((\<exists>e. fetch_document net (extract_id ref) = Inl e) \<longleftrightarrow>
            \<not> truthy (field_of (JObj body) (ascii ''data''))) \<and>
         (\<forall>e. fetch_document net (extract_id ref) = Inl e \<longrightarrow> e = ValueError withdrawn_msg) \<and>
         (fetch_job_detail B net (JStr ref) = Inl (ValueError withdrawn_msg) \<longleftrightarrow>
            \<not> truthy (field_of (JObj body) (ascii ''data''))) \<and>
         (\<forall>s. ValueError withdrawn_msg \<noteq> HTTPError s) \<and>
         (\<forall>s. 400 \<le> s \<and> s < 600 \<longrightarrow> raise_for_status s = Inl (HTTPError s))"
proof -
  note doc = fetch_document_object[where net=net and job_id="extract_id ref", OF assms]
  have "fetch_job_detail B net (JStr ref) = Inl (ValueError withdrawn_msg) \<longleftrightarrow>
            \<not> truthy (field_of (JObj body) (ascii ''data''))"
  proof (cases "truthy (field_of (JObj body) (ascii ''data''))")
    case True
    then have "fetch_job_detail B net (JStr ref)
        = normalize_detail B (extract_id ref) (field_of (JObj body) (ascii ''data''))"
      by (simp add: fetch_job_detail_def doc bindE_def)
    with normalize_detail_Inl[of B "extract_id ref" "field_of (JObj body) (ascii ''data'')" "ValueError withdrawn_msg"]
      True show ?thesis by auto
  next
    case False
    then show ?thesis by (simp add: fetch_job_detail_def doc bindE_def)
  qed
  then show ?thesis
    by (simp add: doc raise_for_status_def)
qed

text \<open>A response with status 200 whose body is the empty object.\<close>

theorem C8_withdrawn_witness:
  "fetch_job_detail plain_builtins (answering (Response 200 (Parsed (JObj []))))
     (JStr (ascii ''//www.104.com.tw/job/8abc?jobsource=list''))
   = Inl (ValueError withdrawn_msg)"
proof -
  have h1: "answering (Response 200 (Parsed (JObj [])))
      (ascii ''https://www.104.com.tw/job/ajax/content/'' @
         extract_id (ascii ''//www.104.com.tw/job/8abc?jobsource=list''))
      = Response 200 (Parsed (JObj []))"
    by (simp add: answering_def)
  have h2: "\<not> (400 \<le> (200::nat) \<and> (200::nat) < 600)"
    by simp
  from C8_withdrawn_error_iff_no_data[where net="answering (Response 200 (Parsed (JObj [])))"
      and ref="ascii ''//www.104.com.tw/job/8abc?jobsource=list''" and B=plain_builtins, OF h1 h2]
  show ?thesis
    by simp
qed

text \<open>
  Claim C8 as stated fails on three well-formed bodies under status 200. For the empty
  list, \<open>data.get\<close> raises \<open>AttributeError\<close>, not the \<open>ValueError\<close> of a withdrawn listing.
  For an object in which \<open>data\<close> is present and the \<open>header\<close> section is a number,
  \<open>fetch_job_detail\<close> raises although \<open>data\<close> is neither absent nor empty: \<open>header.get\<close>
  raises \<open>AttributeError\<close>. For a body with an integer of 4301 digits, \<open>res.json()\<close> raises
  a \<open>ValueError\<close> of the parser, whatever the body holds as \<open>data\<close>, and its message is
  not that of a withdrawn listing.
\<close>

theorem C8_body_that_is_no_object_raises_attribute_error:
  "fetch_job_detail plain_builtins (answering (Response 200 (Parsed (JList []))))
     (JStr (ascii ''//www.104.com.tw/job/8abc?jobsource=list''))
   = Inl AttributeError \<and>
   fetch_job_detail plain_builtins
     (answering (Response 200 (Parsed (JObj [(ascii ''data'', JObj [(ascii ''header'', JInt 5)])]))))
     (JStr (ascii ''//www.104.com.tw/job/8abc?jobsource=list''))
   = Inl AttributeError \<and>
   AttributeError \<noteq> ValueError withdrawn_msg \<and>
   fetch_job_detail plain_builtins
     (answering (Response 200 (Refused (ValueError int_limit_msg))))
     (JStr (ascii ''//www.104.com.tw/job/8abc?jobsource=list''))
   = Inl (ValueError int_limit_msg) \<and>
   ValueError int_limit_msg \<noteq> ValueError withdrawn_msg"
  by (simp add: fetch_job_detail_def fetch_document_def raise_for_status_def answering_def
      eval_defs int_limit_msg_def withdrawn_msg_def)

section \<open>Properties of the run driver\<close>

text \<open>
  A record that \<open>fetch_job_detail\<close> returns has a job title and a company name, so its
  success line can always be made.
\<close>

lemma fetched_record_has_line:
  assumes "fetch_job_detail B n ref = Inr jd"
  shows "\<exists>t c. success_line jd = Inr (Fetched t c)"
proof -
  from assms obtain s info where "normalize_detail B (extract_id s) info = Inr jd"
    by (cases ref) (auto simp: fetch_job_detail_def bindE_eq_Inr)
  then obtain header detail condition welfare
    v_company v_job v_language v_specialty v_skills v_other where
    "job_data_of B (extract_id s) header detail condition welfare
         v_company v_job v_language v_specialty v_skills v_other = Inr jd"
    by (rule normalize_fields)
  from job_data_of_fields(2,3)[OF this] show ?thesis
    by (simp add: success_line_def bindE_def)
qed

text \<open>
  The three ways through the \<open>try\<close> statement that leave the run going: the success line
  is written and the run sleeps; or an exception is caught and the skip line is written,
  the record being kept where the exception came from the success line. Where the skip
  line is not written, its exception ends the run.
\<close>

lemma try_body_not_caught:
  assumes "fetch_job_detail B n ref = Inr jd" and "caught con (Inr jd) = None"
  shows "\<exists>t c. try_body con ref (Inr jd) st =
           Inr (st\<lparr>all_jobs := all_jobs st @ [jd], trace := trace st @ [Fetched t c, Sleep 1]\<rparr>)"
proof -
  from fetched_record_has_line[OF assms(1)] obtain t c where
    l: "success_line jd = Inr (Fetched t c)" by blast
  with assms(2) have "con (Fetched t c) = None" by (simp add: caught_def)
  with l have "try_body con ref (Inr jd) st =
           Inr (st\<lparr>all_jobs := all_jobs st @ [jd], trace := trace st @ [Fetched t c, Sleep 1]\<rparr>)"
    by (simp add: try_body_def)
  then show ?thesis by blast
qed

lemma try_body_caught:
  assumes "caught con outcome = Some e"
  shows "try_body con ref outcome st =
           (case con (Skipped ref e) of
              Some e' \<Rightarrow> Inl e'
            | None \<Rightarrow> Inr (st\<lparr>all_jobs := all_jobs st @ successes [outcome],
                               trace := trace st @ [Skipped ref e]\<rparr>))"
proof (cases outcome)
  case (Inl e0)
  with assms show ?thesis
    by (cases "con (Skipped ref e)")
      (simp_all add: caught_def try_body_def except_clause_def print_line_def bindE_def)
next
  case (Inr jd)
  show ?thesis
  proof (cases "success_line jd")
    case (Inl e1)
    with Inr assms show ?thesis
      by (cases "con (Skipped ref e)")
        (simp_all add: caught_def try_body_def except_clause_def print_line_def bindE_def)
  next
    case line: (Inr line)
    with Inr assms show ?thesis
      by (cases "con (Skipped ref e)")
        (simp_all add: caught_def try_body_def except_clause_def print_line_def bindE_def)
  qed
qed

lemma caught_failure: "caught con (Inl e) = Some e"
  by (simp add: caught_def)

text \<open>
  A run that returns has a paced trace with one pause for each success line, and no more
  success lines than records.
\<close>

lemma main_loop_paced:
  assumes "main_loop B con net i jobs st = Inr st'"
  shows "\<exists>tr. trace st' = trace st @ tr \<and> paced tr \<and>
           length (filter is_sleep tr) = length (filter is_fetched tr) \<and>
           length (all_jobs st) + length (filter is_fetched tr) \<le> length (all_jobs st')"
  using assms
proof (induction jobs arbitrary: i st)
  case Nil
  then show ?case by simp
next
  case (Cons job rest)
  from Cons.prems obtain ref st1 where
    ref: "job_ref job = Inr ref" and
    body: "try_body con ref (fetch_job_detail B (net i) ref)
              (st\<lparr>trace := trace st @ [DetailCall ref]\<rparr>) = Inr st1" and
    run: "main_loop B con net (Suc i) rest st1 = Inr st'"
    by (auto simp: bindE_eq_Inr)
  from Cons.IH[OF run] obtain tr where
    tr: "trace st' = trace st1 @ tr" and p: "paced tr" and
    sl: "length (filter is_sleep tr) = length (filter is_fetched tr)" and
    le: "length (all_jobs st1) + length (filter is_fetched tr) \<le> length (all_jobs st')"
    by blast
  let ?st0 = "st\<lparr>trace := trace st @ [DetailCall ref]\<rparr>"
  let ?out = "fetch_job_detail B (net i) ref"
  show ?case
  proof (cases "caught con ?out")
    case None
    then obtain jd where jd: "?out = Inr jd"
      by (cases ?out) (simp_all add: caught_def)
    from try_body_not_caught[OF jd, of con ?st0] None jd obtain t c where
      "try_body con ref ?out ?st0 =
         Inr (?st0\<lparr>all_jobs := all_jobs ?st0 @ [jd], trace := trace ?st0 @ [Fetched t c, Sleep 1]\<rparr>)"
      by auto
    with body have st1: "st1 = st\<lparr>all_jobs := all_jobs st @ [jd],
        trace := trace st @ [DetailCall ref, Fetched t c, Sleep 1]\<rparr>"
      by simp
    with tr p sl le show ?thesis
      by (intro exI[of _ "[DetailCall ref, Fetched t c, Sleep 1] @ tr"]) simp
  next
    case (Some e)
    from try_body_caught[OF Some, of ref ?st0] body
    have st1: "st1 = st\<lparr>all_jobs := all_jobs st @ successes [?out],
        trace := trace st @ [DetailCall ref, Skipped ref e]\<rparr>"
      by (cases "con (Skipped ref e)") simp_all
    with tr p sl le show ?thesis
      by (intro exI[of _ "[DetailCall ref, Skipped ref e] @ tr"]) simp
  qed
qed

text \<open>
  What the code does about the pause: it sleeps one second after each success line that it
  has written and at no other point.
\<close>

lemma sleeps_follow_success_lines:
  assumes "main_loop B con net 0 jobs \<lparr>all_jobs = [], trace = []\<rparr> = Inr st"
  shows "paced (trace st) \<and>
         length (filter is_sleep (trace st)) = length (filter is_fetched (trace st)) \<and>
         length (filter is_fetched (trace st)) \<le> length (all_jobs st)"
  using main_loop_paced[OF assms] by auto

text \<open>
  A run over items that all carry a reference, on a console that takes every skip line
  that is due, comes to its end. It collects the records of the calls that returned one,
  in their order, and its trace holds the skip line of every exception that was caught.
\<close>

lemma main_loop_run:
  assumes "map job_ref jobs = map Inr refs"
    and "\<forall>k<length refs. \<forall>e. caught con (outcomes B net i refs ! k) = Some e \<longrightarrow>
           con (Skipped (refs ! k) e) = None"
  shows "\<exists>st'. main_loop B con net i jobs st = Inr st' \<and>
           all_jobs st' = all_jobs st @ successes (outcomes B net i refs) \<and>
           (\<forall>k<length refs. \<forall>e. caught con (outcomes B net i refs ! k) = Some e \<longrightarrow>
              Skipped (refs ! k) e \<in> set (trace st'))"
  using assms
proof (induction jobs arbitrary: refs i st)
  case Nil
  then show ?case by simp
next
  case (Cons job rest)
  from Cons.prems(1) obtain ref refs' where refs: "refs = ref # refs'"
    and ref: "job_ref job = Inr ref" and rest: "map job_ref rest = map Inr refs'"
    by (cases refs) auto
  let ?st0 = "st\<lparr>trace := trace st @ [DetailCall ref]\<rparr>"
  let ?out = "fetch_job_detail B (net i) ref"
  have con': "\<forall>k<length refs'. \<forall>e. caught con (outcomes B net (Suc i) refs' ! k) = Some e \<longrightarrow>
           con (Skipped (refs' ! k) e) = None"
  proof (intro allI impI)
    fix k e assume "k < length refs'" "caught con (outcomes B net (Suc i) refs' ! k) = Some e"
    with Cons.prems(2)[rule_format, of "Suc k" e] refs show "con (Skipped (refs' ! k) e) = None"
      by simp
  qed
  have "\<exists>st1. try_body con ref ?out ?st0 = Inr st1 \<and>
          all_jobs st1 = all_jobs st @ successes [?out] \<and>
          set (trace st) \<subseteq> set (trace st1) \<and>
          (\<forall>e. caught con ?out = Some e \<longrightarrow> Skipped ref e \<in> set (trace st1))"
  proof (cases "caught con ?out")
    case None
    then obtain jd where jd: "?out = Inr jd"
      by (cases ?out) (simp_all add: caught_def)
    from try_body_not_caught[OF jd, of con ?st0] None jd obtain t c where
      "try_body con ref ?out ?st0 =
         Inr (?st0\<lparr>all_jobs := all_jobs ?st0 @ [jd], trace := trace ?st0 @ [Fetched t c, Sleep 1]\<rparr>)"
      by auto
    with None jd show ?thesis by auto
  next
    case (Some e)
    with Cons.prems(2)[rule_format, of 0 e] refs have "con (Skipped ref e) = None"
      by simp
    with try_body_caught[OF Some, of ref ?st0] Some show ?thesis by auto
  qed
  then obtain st1 where
    body: "try_body con ref ?out ?st0 = Inr st1" and
    jobs1: "all_jobs st1 = all_jobs st @ successes [?out]" and
    sub1: "set (trace st) \<subseteq> set (trace st1)" and
    sk1: "\<forall>e. caught con ?out = Some e \<longrightarrow> Skipped ref e \<in> set (trace st1)"
    by blast
  from Cons.IH[OF rest con', of st1] obtain st' where
    run: "main_loop B con net (Suc i) rest st1 = Inr st'" and
    jobs: "all_jobs st' = all_jobs st1 @ successes (outcomes B net (Suc i) refs')" and
    sk: "\<forall>k<length refs'. \<forall>e. caught con (outcomes B net (Suc i) refs' ! k) = Some e \<longrightarrow>
              Skipped (refs' ! k) e \<in> set (trace st')"
    by blast
  from main_loop_paced[OF run] have sub: "set (trace st1) \<subseteq> set (trace st')"
    by auto
  have loop: "main_loop B con net i (job # rest) st = Inr st'"
    using ref body run by (simp add: bindE_def)
  have all: "all_jobs st' = all_jobs st @ successes (outcomes B net i refs)"
    using jobs jobs1 refs by (cases ?out) simp_all
  have "\<forall>k<length refs. \<forall>e. caught con (outcomes B net i refs ! k) = Some e \<longrightarrow>
              Skipped (refs ! k) e \<in> set (trace st')"
  proof (intro allI impI)
    fix k e assume k: "k < length refs" and c: "caught con (outcomes B net i refs ! k) = Some e"
    show "Skipped (refs ! k) e \<in> set (trace st')"
    proof (cases k)
      case 0
      with c refs sk1 sub show ?thesis by auto
    next
      case (Suc k')
      with k c refs sk show ?thesis by simp
    qed
  qed
  with loop all show ?case by blast
qed

text \<open>The outcomes by position, and the records of outcomes of which all, or all but one, are records.\<close>

lemma length_outcomes: "length (outcomes B net i refs) = length refs"
  by (induction refs arbitrary: i) simp_all

lemma nth_outcomes:
  "k < length refs \<Longrightarrow> outcomes B net i refs ! k = fetch_job_detail B (net (i + k)) (refs ! k)"
proof (induction refs arbitrary: i k)
  case Nil
  then show ?case by simp
next
  case (Cons ref refs)
  then show ?case by (cases k) simp_all
qed

lemma successes_all:
  "length recs = length outs \<Longrightarrow> \<forall>i<length outs. outs ! i = Inr (recs ! i) \<Longrightarrow>
   successes outs = recs"
proof (induction outs arbitrary: recs)
  case Nil
  then show ?case by simp
next
  case (Cons out outs)
  from Cons.prems(1) obtain r rs where recs: "recs = r # rs" by (cases recs) auto
  from Cons.prems(2) recs have "out = Inr r" by auto
  moreover from Cons.prems recs have "\<forall>i<length outs. outs ! i = Inr (rs ! i)" by auto
  ultimately show ?case using Cons.IH[of rs] Cons.prems(1) recs by simp
qed

lemma successes_but_one:
  "length recs = length outs \<Longrightarrow> k < length outs \<Longrightarrow> outs ! k = Inl e \<Longrightarrow>
   \<forall>i<length outs. i \<noteq> k \<longrightarrow> outs ! i = Inr (recs ! i) \<Longrightarrow>
   successes outs = take k recs @ drop (Suc k) recs"
proof (induction outs arbitrary: recs k)
  case Nil
  then show ?case by simp
next
  case (Cons out outs)
  from Cons.prems(1) obtain r rs where recs: "recs = r # rs" by (cases recs) auto
  show ?case
  proof (cases k)
    case 0
    with Cons.prems(3) have out: "out = Inl e" by simp
    from Cons.prems(4) recs 0 have "\<forall>i<length outs. outs ! i = Inr (rs ! i)" by auto
    with successes_all[of rs outs] Cons.prems(1) recs have "successes outs = rs" by simp
    with out 0 recs show ?thesis by simp
  next
    case (Suc k')
    from Cons.prems(4) recs Suc have out: "out = Inr r" by auto
    from Cons.prems(4) recs Suc have "\<forall>i<length outs. i \<noteq> k' \<longrightarrow> outs ! i = Inr (rs ! i)" by auto
    with Cons.IH[of rs k'] Cons.prems(1,2,3) recs Suc
    have "successes outs = take k' rs @ drop (Suc k') rs" by simp
    with out Suc recs show ?thesis by simp
  qed
qed


text \<open>
  Claim C6, as the code has it. Take a run over \<open>N\<close> listing items that carry a reference,
  on a console that takes the skip line of every item for which one is due. The run comes
  to its end, whichever detail fetches raise: the result holds the records of the items
  whose detail fetch returned one, in the order of the listing, and for every item whose
  detail fetch raised, the trace holds the skip line with the reference of that item and
  the exception. Where the detail fetch of item \<open>k\<close> is the only one that raises, the
  result is the records of the others, \<open>N - 1\<close> of them, without one for \<open>k\<close>.
\<close>

theorem C6_failed_fetch_is_skipped_where_the_skip_line_is_written:
  assumes "map job_ref jobs = map Inr refs"
    and "\<forall>k<length jobs. \<forall>e. caught con (fetch_job_detail B (net k) (refs ! k)) = Some e \<longrightarrow>
           con (Skipped (refs ! k) e) = None"
  shows "\<exists>st. main_loop B con net 0 jobs \<lparr>all_jobs = [], trace = []\<rparr> = Inr st \<and>
           all_jobs st = successes (outcomes B net 0 refs) \<and>
           (\<forall>k<length jobs. \<forall>e. fetch_job_detail B (net k) (refs ! k) = Inl e \<longrightarrow>
              Skipped (refs ! k) e \<in> set (trace st)) \<and>
           (\<forall>k e recs.
              k < length jobs \<and> length recs = length jobs \<and>
              fetch_job_detail B (net k) (refs ! k) = Inl e \<and>
              (\<forall>i<length jobs. i \<noteq> k \<longrightarrow> fetch_job_detail B (net i) (refs ! i) = Inr (recs ! i))
              \<longrightarrow> all_jobs st = take k recs @ drop (Suc k) recs \<and>
                  length (all_jobs st) = length jobs - 1)"
proof -
  have len: "length refs = length jobs"
    using assms(1) by (metis length_map)
  have con: "\<forall>k<length refs. \<forall>e. caught con (outcomes B net 0 refs ! k) = Some e \<longrightarrow>
           con (Skipped (refs ! k) e) = None"
    using assms(2) len by (simp add: nth_outcomes)
  from main_loop_run[OF assms(1) con, of "\<lparr>all_jobs = [], trace = []\<rparr>"]
  obtain st where
    run: "main_loop B con net 0 jobs \<lparr>all_jobs = [], trace = []\<rparr> = Inr st" and
    jobs: "all_jobs st = successes (outcomes B net 0 refs)" and
    sk: "\<forall>k<length refs. \<forall>e. caught con (outcomes B net 0 refs ! k) = Some e \<longrightarrow>
           Skipped (refs ! k) e \<in> set (trace st)"
    by auto
  have skipped: "\<forall>k<length jobs. \<forall>e. fetch_job_detail B (net k) (refs ! k) = Inl e \<longrightarrow>
              Skipped (refs ! k) e \<in> set (trace st)"
  proof (intro allI impI)
    fix k e assume k: "k < length jobs" and f: "fetch_job_detail B (net k) (refs ! k) = Inl e"
    from k len f have "caught con (outcomes B net 0 refs ! k) = Some e"
      by (simp add: nth_outcomes caught_failure)
    with sk k len show "Skipped (refs ! k) e \<in> set (trace st)" by simp
  qed
  have one: "all_jobs st = take k recs @ drop (Suc k) recs \<and> length (all_jobs st) = length jobs - 1"
    if k: "k < length jobs" and l: "length recs = length jobs"
      and f: "fetch_job_detail B (net k) (refs ! k) = Inl e"
      and ok: "\<forall>i<length jobs. i \<noteq> k \<longrightarrow> fetch_job_detail B (net i) (refs ! i) = Inr (recs ! i)"
    for k e recs
  proof -
    have "successes (outcomes B net 0 refs) = take k recs @ drop (Suc k) recs"
    proof (rule successes_but_one)
      show "length recs = length (outcomes B net 0 refs)"
        using l len by (simp add: length_outcomes)
      show "k < length (outcomes B net 0 refs)"
        using k len by (simp add: length_outcomes)
      show "outcomes B net 0 refs ! k = Inl e"
        using k len f by (simp add: nth_outcomes)
      show "\<forall>i<length (outcomes B net 0 refs). i \<noteq> k \<longrightarrow> outcomes B net 0 refs ! i = Inr (recs ! i)"
        using ok len by (simp add: length_outcomes nth_outcomes)
    qed
    with jobs have a: "all_jobs st = take k recs @ drop (Suc k) recs" by simp
    moreover have "length (take k recs @ drop (Suc k) recs) = length jobs - 1"
      using k l by simp
    ultimately show ?thesis by simp
  qed
  from run jobs skipped one show ?thesis by blast
qed

text \<open>Three items, the second of which has been withdrawn, on a console that encodes in UTF-8.\<close>

theorem C6_withdrawn_item_witness:
  "\<exists>st. main_loop plain_builtins utf8_console
           (withdrawn_at 1 (JObj [(ascii ''custName'', JStr (ascii ''Acme''))])) 0
           [listing_item (ascii ''/job/a1''), listing_item (ascii ''/job/a2''),
            listing_item (ascii ''/job/a3'')]
           \<lparr>all_jobs = [], trace = []\<rparr> = Inr st \<and>
         length (all_jobs st) = 2 \<and>
         Skipped (JStr (ascii ''/job/a2'')) (ValueError withdrawn_msg) \<in> set (trace st)"
proof -
  let ?net = "withdrawn_at 1 (JObj [(ascii ''custName'', JStr (ascii ''Acme''))])"
  let ?jobs = "[listing_item (ascii ''/job/a1''), listing_item (ascii ''/job/a2''),
            listing_item (ascii ''/job/a3'')]"
  let ?refs = "[JStr (ascii ''/job/a1''), JStr (ascii ''/job/a2''), JStr (ascii ''/job/a3'')]"
  have h: "map job_ref ?jobs = map Inr ?refs"
    by (simp add: job_ref_def listing_item_def bindE_def ascii_def)
  obtain r0 where f0: "fetch_job_detail plain_builtins (?net 0) (?refs ! 0) = Inr r0"
    and c0: "caught utf8_console (Inr r0) = None"
    by (simp add: fetch_job_detail_def fetch_document_def raise_for_status_def withdrawn_at_def
        extract_id_def eval_defs caught_def success_line_def utf8_console_def surrogate_def
        k_company_def k_job_def unnamed_job_def)
  obtain r2 where f2: "fetch_job_detail plain_builtins (?net 2) (?refs ! 2) = Inr r2"
    and c2: "caught utf8_console (Inr r2) = None"
    by (simp add: fetch_job_detail_def fetch_document_def raise_for_status_def withdrawn_at_def
        extract_id_def eval_defs caught_def success_line_def utf8_console_def surrogate_def
        k_company_def k_job_def unnamed_job_def)
  have f1: "fetch_job_detail plain_builtins (?net 1) (?refs ! 1) = Inl (ValueError withdrawn_msg)"
    by (simp add: fetch_job_detail_def fetch_document_def raise_for_status_def withdrawn_at_def
        extract_id_def eval_defs)
  have p1: "utf8_console (Skipped (?refs ! 1) (ValueError withdrawn_msg)) = None"
    by (simp add: utf8_console_def surrogate_def withdrawn_msg_def ascii_def)
  have con: "\<forall>k<length ?jobs. \<forall>e.
      caught utf8_console (fetch_job_detail plain_builtins (?net k) (?refs ! k)) = Some e \<longrightarrow>
      utf8_console (Skipped (?refs ! k) e) = None"
  proof (intro allI impI)
    fix k e assume "k < length ?jobs"
      and c: "caught utf8_console (fetch_job_detail plain_builtins (?net k) (?refs ! k)) = Some e"
    then have "k = 0 \<or> k = 1 \<or> k = 2" by auto
    then show "utf8_console (Skipped (?refs ! k) e) = None"
    proof (elim disjE)
      assume "k = 0"
      with c f0 c0 show ?thesis by simp
    next
      assume k: "k = 1"
      with c f1 have "e = ValueError withdrawn_msg" by (simp add: caught_failure)
      with k p1 show ?thesis by simp
    next
      assume "k = 2"
      with c f2 c2 show ?thesis by simp
    qed
  qed
  have ok: "\<forall>i<length ?jobs. i \<noteq> 1 \<longrightarrow>
      fetch_job_detail plain_builtins (?net i) (?refs ! i) = Inr ([r0, r0, r2] ! i)"
  proof (intro allI impI)
    fix i assume "i < length ?jobs" and "i \<noteq> 1"
    then have "i = 0 \<or> i = 2" by auto
    then show "fetch_job_detail plain_builtins (?net i) (?refs ! i) = Inr ([r0, r0, r2] ! i)"
      using f0 f2 by auto
  qed
  from C6_failed_fetch_is_skipped_where_the_skip_line_is_written[OF h con]
  obtain st where
    run: "main_loop plain_builtins utf8_console ?net 0 ?jobs \<lparr>all_jobs = [], trace = []\<rparr> = Inr st" and
    sk: "\<forall>k<length ?jobs. \<forall>e. fetch_job_detail plain_builtins (?net k) (?refs ! k) = Inl e \<longrightarrow>
              Skipped (?refs ! k) e \<in> set (trace st)" and
    one: "\<forall>k e recs.
              k < length ?jobs \<and> length recs = length ?jobs \<and>
              fetch_job_detail plain_builtins (?net k) (?refs ! k) = Inl e \<and>
              (\<forall>i<length ?jobs. i \<noteq> k \<longrightarrow>
                 fetch_job_detail plain_builtins (?net i) (?refs ! i) = Inr (recs ! i))
              \<longrightarrow> all_jobs st = take k recs @ drop (Suc k) recs \<and>
                  length (all_jobs st) = length ?jobs - 1"
    by blast
  from one[rule_format, of 1 "[r0, r0, r2]" "ValueError withdrawn_msg"] f1 ok
  have "length (all_jobs st) = 2" by simp
  moreover from sk[rule_format, of 1 "ValueError withdrawn_msg"] f1
  have "Skipped (JStr (ascii ''/job/a2'')) (ValueError withdrawn_msg) \<in> set (trace st)" by simp
  ultimately show ?thesis using run by blast
qed

text \<open>
  Claim C6 as stated fails in two ways. On a console that encodes in cp950 the skip line
  of a withdrawn first item cannot be written: its \<open>print\<close> stands in the \<open>except\<close> clause,
  outside the \<open>try\<close>, so its exception ends the run before the second item. On a console
  that encodes in UTF-8, an item whose job title is a lone surrogate has its record
  appended before its success line raises: the item is reported as skipped, and its
  record is in the result all the same.
\<close>

theorem C6_skip_line_that_cannot_be_written_ends_the_run:
  "main_loop plain_builtins cp950_console
     (withdrawn_at 0 (JObj [(ascii ''custName'', JStr (ascii ''Acme''))])) 0
     [listing_item (ascii ''/job/a1''), listing_item (ascii ''/job/a2'')]
     \<lparr>all_jobs = [], trace = []\<rparr>
   = Inl UnicodeEncodeError \<and>
   map_sum id trace
     (main_loop plain_builtins utf8_console
        (withdrawn_at 1 (JObj [(ascii ''jobName'', JStr [0xD800])])) 0
        [listing_item (ascii ''/job/a1'')]
        \<lparr>all_jobs = [], trace = []\<rparr>)
   = Inr [DetailCall (JStr (ascii ''/job/a1'')),
          Skipped (JStr (ascii ''/job/a1'')) UnicodeEncodeError] \<and>
   map_sum id (length \<circ> all_jobs)
     (main_loop plain_builtins utf8_console
        (withdrawn_at 1 (JObj [(ascii ''jobName'', JStr [0xD800])])) 0
        [listing_item (ascii ''/job/a1'')]
        \<lparr>all_jobs = [], trace = []\<rparr>)
   = Inr 1"
  by (simp add: job_ref_def listing_item_def try_body_def except_clause_def print_line_def
      success_line_def fetch_job_detail_def fetch_document_def raise_for_status_def
      withdrawn_at_def extract_id_def eval_defs cp950_console_def utf8_console_def
      surrogate_def k_company_def k_job_def unknown_company_def)

text \<open>
  Claim C7. The claim says that the pause follows every item, successful or not. The
  \<open>sleep\<close> stands inside the \<open>try\<close>, behind the call, so an item that raises goes to the
  \<open>except\<close> branch without it. In a run over two items of which the first has been
  withdrawn, the second detail fetch follows the skip line of the first at once; the only
  pause is the one behind the second item.
\<close>

theorem C7_no_pause_after_failed_item:
  "map_sum id trace
     (main_loop plain_builtins utf8_console
        (withdrawn_at 0 (JObj [(ascii ''custName'', JStr (ascii ''Acme''))])) 0
        [listing_item (ascii ''/job/a1''), listing_item (ascii ''/job/a2'')]
        \<lparr>all_jobs = [], trace = []\<rparr>)
   = Inr [DetailCall (JStr (ascii ''/job/a1'')),
          Skipped (JStr (ascii ''/job/a1'')) (ValueError withdrawn_msg),
          DetailCall (JStr (ascii ''/job/a2'')),
          Fetched (JStr unnamed_job) (JStr (ascii ''Acme'')),
          Sleep 1]"
  by (simp add: job_ref_def listing_item_def try_body_def except_clause_def print_line_def
      success_line_def fetch_job_detail_def fetch_document_def raise_for_status_def
      withdrawn_at_def extract_id_def eval_defs utf8_console_def surrogate_def
      k_company_def k_job_def unnamed_job_def withdrawn_msg_def)

end
